theory Spec2Isabelle
  imports Main "HOL-Library.Word"
begin

unbundle bit_operations_syntax

section \<open>Proof-of-work core of pow.cpp\<close>

text \<open>
  The development embeds the functions of \<^verbatim>\<open>pow.cpp\<close>: the retarget entry point
  \<^verbatim>\<open>GetNextWorkRequired\<close> with its two engines (Digishield v3 and Zawy's LWMA) and the
  header checks \<^verbatim>\<open>CheckProofOfWork\<close> and \<^verbatim>\<open>CheckEquihashSolution\<close>.

  Conventions. A C++ integer field is a word of its width, read with \<open>sint\<close> or \<open>uint\<close>;
  signed C++ arithmetic is carried out on mathematical integers (signed overflow is
  undefined behaviour in C++, so only overflow-free executions have a meaning), and every
  conversion the source performs is written out: the narrowing of a 64-bit value into the
  \<^verbatim>\<open>int\<close> accumulator of LWMA, and the conversion of a signed value to \<^verbatim>\<open>uint64_t\<close> on
  entering 256-bit arithmetic. A failed \<^verbatim>\<open>assert\<close>, a null dereference and a thrown
  \<^verbatim>\<open>uint_error\<close> are values of the type \<open>error\<close>.
\<close>

subsection \<open>Errors\<close>

datatype error = AssertionFailed | NullDereference | DivisionByZero

subsection \<open>256-bit unsigned integers and the compact codec\<close>

type_synonym uint256 = "256 word"

text \<open>
  Modelled from the spec: \<^verbatim>\<open>base_uint::bits\<close> of \<^verbatim>\<open>arith_uint256\<close>, which is not among
  the sources. It is the position of the highest set bit plus one, and 0 for 0; the
  encoder uses it to strip leading zero bytes.
\<close>

fun bits :: "nat \<Rightarrow> nat" where
  "bits n = (if n = 0 then 0 else bits (n div 2) + 1)"

declare bits.simps [simp del]

text \<open>
  Modelled from the spec: \<^verbatim>\<open>arith_uint256::SetCompact\<close> (the spec's \<^verbatim>\<open>decode\<close>), which is
  not among the sources. The top 8 bits are the base-256 exponent, bit 23 is the sign and
  the low 23 bits are the mantissa; the value is the mantissa times \<open>256 ^ (E - 3)\<close>, cut to
  256 bits, or the mantissa shifted right by \<open>8 * (3 - E)\<close> bits when \<open>E \<le> 3\<close>. The result is
  \<open>(target, negative, overflow)\<close>. The overflow flag is the three-tier test of the
  reference codec, under which the spec's example \<^verbatim>\<open>0x21010000\<close> overflows.
\<close>

definition SetCompact :: "32 word \<Rightarrow> uint256 \<times> bool \<times> bool" where
  "SetCompact nCompact =
     (let nSize = unat (drop_bit 24 nCompact);
          nWord0 = unat (nCompact AND 0x007fffff);
          nWord = (if nSize \<le> 3 then nWord0 div 2 ^ (8 * (3 - nSize)) else nWord0);
          bn = (if nSize \<le> 3 then word_of_nat nWord
                else word_of_nat (nWord * 2 ^ (8 * (nSize - 3))));
          fNegative = (nWord \<noteq> 0 \<and> nCompact AND 0x00800000 \<noteq> 0);
          fOverflow = (nWord \<noteq> 0 \<and>
                       (nSize > 34 \<or> (nWord > 0xff \<and> nSize > 33) \<or>
                        (nWord > 0xffff \<and> nSize > 32)))
      in (bn, fNegative, fOverflow))"

text \<open>The target alone, as the retarget engines read it (no flag pointers passed).\<close>

definition CompactTarget :: "32 word \<Rightarrow> uint256" where
  "CompactTarget nCompact = fst (SetCompact nCompact)"

text \<open>
  Modelled from the spec: \<^verbatim>\<open>arith_uint256::GetCompact\<close> (the spec's \<^verbatim>\<open>encode\<close>), which is
  not among the sources. Leading zero bytes are stripped, the top three bytes become the
  mantissa, and when the mantissa's high bit (the sign position) is set it is shifted
  right by 8 and the exponent is bumped.
\<close>

definition GetCompact :: "uint256 \<Rightarrow> 32 word" where
  "GetCompact bn =
     (let v = unat bn;
          nSize = (bits v + 7) div 8;
          nCompact = (if nSize \<le> 3 then v * 2 ^ (8 * (3 - nSize))
                      else v div 2 ^ (8 * (nSize - 3)))
      in if 2 ^ 23 \<le> nCompact
         then word_of_nat (nCompact div 2 ^ 8 + (nSize + 1) * 2 ^ 24)
         else word_of_nat (nCompact + nSize * 2 ^ 24))"

text \<open>The value a compact with mantissa \<open>m\<close> and exponent \<open>e\<close> stands for.\<close>

definition compact_val :: "nat \<Rightarrow> nat \<Rightarrow> nat" where
  "compact_val m e = (if e \<le> 3 then m div 2 ^ (8 * (3 - e)) else m * 2 ^ (8 * (e - 3)))"

subsection \<open>Chain parameters\<close>

datatype Network = MAIN | TEST | REGTEST

text \<open>
  Modelled from the spec: \<^verbatim>\<open>Consensus::Params\<close>, declared in a header that is not among
  the sources; the fields and their widths are those of the spec's parameter list. The
  source reads the network through the process-wide \<^verbatim>\<open>Params().NetworkIDString()\<close>; here it
  is the field \<open>network\<close>.
\<close>

record Params =
  network :: Network
  powLimit :: uint256
  fPowNoRetargeting :: bool
  fPowAllowMinDifficultyBlocks :: bool
  nZawyLWMAHeight :: "32 word"
  nEquihashForkHeight :: "32 word"
  nDigishieldAveragingWindow :: "32 word"
  nDigishieldTargetSpacing :: "64 word"
  nPowTargetSpacing :: "64 word"
  nZawyLwmaAveragingWindow :: "32 word"
  nZawyLwmaAdjustedWeight :: "32 word"
  nZawyLwmaMinDenominator :: "32 word"
  bZawyLwmaSolvetimeLimitation :: bool

subsection \<open>Integer conversions and division\<close>

text \<open>C++ integer division truncates towards zero; \<open>div\<close> on \<open>int\<close> rounds down.\<close>

definition cpp_div :: "int \<Rightarrow> int \<Rightarrow> int" where
  "cpp_div a b = sgn a * sgn b * (\<bar>a\<bar> div \<bar>b\<bar>)"

text \<open>
  Modelled from the spec: the scalar operands of \<^verbatim>\<open>arith_uint256\<close>, which is not among the
  sources. The spec gives the 256-bit type division and multiplication by a \<^verbatim>\<open>u64\<close> scalar:
  a signed integer entering 256-bit arithmetic is converted to \<^verbatim>\<open>uint64_t\<close>, the value modulo
  \<open>2 ^ 64\<close>, and zero-extended. Addition and multiplication of \<open>uint256\<close> wrap at 256 bits.
\<close>

definition of_int64 :: "int \<Rightarrow> uint256" where
  "of_int64 x = word_of_int (x mod 2 ^ 64)"

text \<open>Storing a 64-bit value into an \<^verbatim>\<open>int\<close> keeps its low 32 bits, read as two's complement.\<close>

definition to_int32 :: "int \<Rightarrow> int" where
  "to_int32 x = sint (word_of_int x :: 32 word)"

text \<open>
  Modelled from the spec: division of \<^verbatim>\<open>arith_uint256\<close>, which is not among the sources.
  The quotient is the unsigned one; a zero divisor raises \<^verbatim>\<open>uint_error\<close>.
\<close>

definition u256_div :: "uint256 \<Rightarrow> uint256 \<Rightarrow> error + uint256" where
  "u256_div a b = (if b = 0 then Inl DivisionByZero else Inr (a div b))"

subsection \<open>Headers and the block index\<close>

text \<open>
  Modelled from the spec: \<^verbatim>\<open>CBlockHeader\<close>, declared in a header that is not among the
  sources; the fields are those of the spec's header table.
\<close>

record CBlockHeader =
  nVersion :: "32 word"
  hashPrevBlock :: uint256
  hashMerkleRoot :: uint256
  hashReserved :: uint256
  nTime :: "32 word"
  nBits :: "32 word"
  nNonce :: uint256
  nSolution :: "8 word list"

text \<open>
  Modelled from the spec: \<^verbatim>\<open>CBlockIndex\<close>, declared in a header that is not among the
  sources. A pointer to a block index is the list of that block and its ancestors, nearest
  first: \<^verbatim>\<open>pprev\<close> is the tail and \<^verbatim>\<open>nullptr\<close> is the empty list.
\<close>

record CBlockIndex =
  nHeight :: "32 word"
  nTime :: "32 word"
  nBits :: "32 word"

type_synonym chain = "CBlockIndex list"

text \<open>
  Modelled from the spec: \<^verbatim>\<open>GetBlockTime\<close> of the block index and of the header, which are
  not among the sources: the unsigned 32-bit \<^verbatim>\<open>nTime\<close> widened to \<^verbatim>\<open>int64_t\<close>.
\<close>

definition GetBlockTime :: "CBlockIndex \<Rightarrow> int" where
  "GetBlockTime b = uint (CBlockIndex.nTime b)"

definition HeaderBlockTime :: "CBlockHeader \<Rightarrow> int" where
  "HeaderBlockTime h = uint (CBlockHeader.nTime h)"

text \<open>
  Modelled from the spec: \<^verbatim>\<open>CBlockIndex::GetMedianTimePast\<close>, which is not among the
  sources: the median of the timestamps of the 11 most recent blocks ending at this one
  (fewer when the chain is shorter), the lower middle for an even count. It is only
  called on a non-null index.
\<close>

definition GetMedianTimePast :: "chain \<Rightarrow> int" where
  "GetMedianTimePast pindex =
     (let ts = sort (map GetBlockTime (take 11 pindex))
      in ts ! ((length ts - 1) div 2))"

text \<open>
  Modelled from the spec: \<^verbatim>\<open>CBlockIndex::GetAncestor\<close>, which is not among the sources.
  It is null for a height above the block's own or below zero; otherwise it follows
  \<^verbatim>\<open>pprev\<close> down by the difference of the heights.
\<close>

definition GetAncestor :: "chain \<Rightarrow> int \<Rightarrow> chain" where
  "GetAncestor pindex height =
     (case pindex of
        [] \<Rightarrow> []
      | b # _ \<Rightarrow>
          if height > sint (nHeight b) \<or> height < 0 then []
          else drop (nat (sint (nHeight b) - height)) pindex)"

text \<open>
  A chain whose heights count down to the genesis at height 0, as every chain the index
  hands out does.
\<close>

fun chain_ok :: "chain \<Rightarrow> bool" where
  "chain_ok [] = True"
| "chain_ok (b # pprev) = (sint (nHeight b) = int (length pprev) \<and> chain_ok pprev)"

subsection \<open>Digishield v3\<close>

text \<open>
  Modelled from the spec: the three timespan methods of \<^verbatim>\<open>Consensus::Params\<close>, which are
  not among the sources, with the constants of the spec's parameter list.
\<close>

definition DigishieldAveragingWindowTimespan :: "Params \<Rightarrow> int" where
  "DigishieldAveragingWindowTimespan params =
     sint (nDigishieldAveragingWindow params) * sint (nDigishieldTargetSpacing params)"

definition DigishieldMinActualTimespan :: "Params \<Rightarrow> int" where
  "DigishieldMinActualTimespan params =
     cpp_div (DigishieldAveragingWindowTimespan params * (100 - 16)) 100"

definition DigishieldMaxActualTimespan :: "Params \<Rightarrow> int" where
  "DigishieldMaxActualTimespan params =
     cpp_div (DigishieldAveragingWindowTimespan params * (100 + 32)) 100"

definition DigishieldCalculateNextWorkRequired ::
    "chain \<Rightarrow> uint256 \<Rightarrow> int \<Rightarrow> Params \<Rightarrow> error + 32 word" where
  "DigishieldCalculateNextWorkRequired pindexLast bnAvg nFirstBlockTime params =
     (case pindexLast of
        [] \<Rightarrow> Inl NullDereference
      | p # _ \<Rightarrow>
          if fPowNoRetargeting params then Inr (nBits p)
          else
            let nActualTimespan0 = GetMedianTimePast pindexLast - nFirstBlockTime;
                nActualTimespan1 = DigishieldAveragingWindowTimespan params +
                  cpp_div (nActualTimespan0 - DigishieldAveragingWindowTimespan params) 4;
                nActualTimespan2 =
                  (if nActualTimespan1 < DigishieldMinActualTimespan params
                   then DigishieldMinActualTimespan params else nActualTimespan1);
                nActualTimespan =
                  (if nActualTimespan2 > DigishieldMaxActualTimespan params
                   then DigishieldMaxActualTimespan params else nActualTimespan2);
                bnPowLimit = powLimit params
            in (case u256_div bnAvg (of_int64 (DigishieldAveragingWindowTimespan params)) of
                  Inl e \<Rightarrow> Inl e
                | Inr bnNew0 \<Rightarrow>
                    let bnNew1 = bnNew0 * of_int64 nActualTimespan;
                        bnNew = (if bnNew1 > bnPowLimit then bnPowLimit else bnNew1)
                    in Inr (GetCompact bnNew)))"

text \<open>
  The loop of \<^verbatim>\<open>DigishieldGetNextWorkRequired\<close>:
  \<^verbatim>\<open>for (int i = 0; pindexFirst && i < W; i++) { bnTot += target; pindexFirst = pindexFirst->pprev; }\<close>.
  It returns the final \<open>i\<close>, \<open>bnTot\<close> and \<open>pindexFirst\<close>.
\<close>

fun DigishieldWalk :: "int \<Rightarrow> int \<Rightarrow> uint256 \<Rightarrow> chain \<Rightarrow> int \<times> uint256 \<times> chain" where
  "DigishieldWalk W i bnTot [] = (i, bnTot, [])"
| "DigishieldWalk W i bnTot (b # pprev) =
     (if i < W then DigishieldWalk W (i + 1) (bnTot + CompactTarget (nBits b)) pprev
      else (i, bnTot, b # pprev))"

text \<open>
  The fork-reset test of \<^verbatim>\<open>DigishieldGetNextWorkRequired\<close>, named here because both of its
  branches return the same value: off the main network the lower edge is
  \<open>nEquihashForkHeight\<close>, on it the literal 95005.
\<close>

definition DigishieldReset :: "CBlockIndex \<Rightarrow> Params \<Rightarrow> bool" where
  "DigishieldReset p params =
     (if network params \<noteq> MAIN
      then sint (nHeight p) + 1 \<ge> sint (nEquihashForkHeight params) \<and>
           sint (nHeight p) <
             sint (nEquihashForkHeight params) + sint (nDigishieldAveragingWindow params)
      else sint (nHeight p) + 1 \<ge> 95005 \<and>
           sint (nHeight p) <
             sint (nEquihashForkHeight params) + sint (nDigishieldAveragingWindow params))"

text \<open>
  The assertion comes first, so the genesis test after it (kept as the source has it) can
  never hold.
\<close>

definition DigishieldGetNextWorkRequired ::
    "chain \<Rightarrow> CBlockHeader option \<Rightarrow> Params \<Rightarrow> error + 32 word" where
  "DigishieldGetNextWorkRequired pindexLast pblock params =
     (if pindexLast = [] then Inl AssertionFailed
      else
        let nProofOfWorkLimit = GetCompact (powLimit params)
        in if pindexLast = [] then Inr nProofOfWorkLimit
           else
             let p = hd pindexLast
             in if fPowAllowMinDifficultyBlocks params \<and>
                   (case pblock of
                      None \<Rightarrow> False
                    | Some blk \<Rightarrow>
                        HeaderBlockTime blk >
                          GetBlockTime p + sint (nDigishieldTargetSpacing params) * 6)
                then Inr nProofOfWorkLimit
                else if DigishieldReset p params then Inr nProofOfWorkLimit
                else
                  (case DigishieldWalk (sint (nDigishieldAveragingWindow params)) 0 0 pindexLast of
                     (i, bnTot, pindexFirst) \<Rightarrow>
                       if pindexFirst = [] then Inr nProofOfWorkLimit
                       else
                         (case u256_div bnTot
                                 (of_int64 (sint (nDigishieldAveragingWindow params))) of
                            Inl e \<Rightarrow> Inl e
                          | Inr bnAvg \<Rightarrow>
                              DigishieldCalculateNextWorkRequired pindexLast bnAvg
                                (GetMedianTimePast pindexFirst) params)))"

subsection \<open>Zawy's LWMA\<close>

text \<open>
  The loop of \<^verbatim>\<open>LwmaCalculateNextWorkRequired\<close> over the heights \<open>i\<close>, with the state
  \<open>(t, j, sum_target)\<close>. \<open>t\<close> and \<open>j\<close> are declared \<^verbatim>\<open>int\<close>, \<open>solvetime\<close> is \<^verbatim>\<open>int64_t\<close>:
  \<^verbatim>\<open>t += solvetime * j\<close> adds in 64 bits and stores the sum into the 32-bit \<open>t\<close>. The
  divisor \<open>d\<close> is \<^verbatim>\<open>k * N * N\<close>, converted to \<^verbatim>\<open>arith_uint256\<close>.
\<close>

fun LwmaLoop ::
    "chain \<Rightarrow> int \<Rightarrow> bool \<Rightarrow> uint256 \<Rightarrow> int list \<Rightarrow> int \<times> int \<times> uint256 \<Rightarrow>
     error + int \<times> int \<times> uint256" where
  "LwmaLoop pindexLast T limit_st d [] s = Inr s"
| "LwmaLoop pindexLast T limit_st d (i # rest) (t, j, sum_target) =
     (case GetAncestor pindexLast i of
        [] \<Rightarrow> Inl NullDereference
      | block # bprev \<Rightarrow>
          (case GetAncestor (block # bprev) (i - 1) of
             [] \<Rightarrow> Inl NullDereference
           | block_Prev # _ \<Rightarrow>
               let solvetime0 = GetBlockTime block - GetBlockTime block_Prev;
                   solvetime = (if limit_st \<and> solvetime0 > 6 * T then 6 * T else solvetime0);
                   j' = j + 1;
                   t' = to_int32 (t + solvetime * j')
               in (case u256_div (CompactTarget (nBits block)) d of
                     Inl e \<Rightarrow> Inl e
                   | Inr q \<Rightarrow>
                       LwmaLoop pindexLast T limit_st d rest (t', j', sum_target + q))))"

definition LwmaCalculateNextWorkRequired :: "chain \<Rightarrow> Params \<Rightarrow> error + 32 word" where
  "LwmaCalculateNextWorkRequired pindexLast params =
     (case pindexLast of
        [] \<Rightarrow> Inl NullDereference
      | p # _ \<Rightarrow>
          if fPowNoRetargeting params then Inr (nBits p)
          else
            let height = sint (nHeight p) + 1;
                T = sint (nPowTargetSpacing params);
                N = sint (nZawyLwmaAveragingWindow params);
                k = sint (nZawyLwmaAdjustedWeight params);
                dnorm = sint (nZawyLwmaMinDenominator params);
                limit_st = bZawyLwmaSolvetimeLimitation params
            in if \<not> height > N then Inl AssertionFailed
               else
                 (case LwmaLoop pindexLast T limit_st (of_int64 (k * N * N))
                         [height - N .. height - 1] (0, 0, 0) of
                    Inl e \<Rightarrow> Inl e
                  | Inr (t0, j, sum_target) \<Rightarrow>
                      if dnorm = 0 then Inl DivisionByZero
                      else
                        let t = (if t0 < cpp_div (N * k) dnorm then cpp_div (N * k) dnorm else t0);
                            pow_limit = powLimit params;
                            next_target0 = of_int64 t * sum_target;
                            next_target =
                              (if next_target0 > pow_limit then pow_limit else next_target0)
                        in Inr (GetCompact next_target)))"

definition LwmaGetNextWorkRequired ::
    "chain \<Rightarrow> CBlockHeader option \<Rightarrow> Params \<Rightarrow> error + 32 word" where
  "LwmaGetNextWorkRequired pindexLast pblock params =
     (if fPowAllowMinDifficultyBlocks params
      then (case pblock of
              None \<Rightarrow> Inl NullDereference
            | Some blk \<Rightarrow>
                (case pindexLast of
                   [] \<Rightarrow> Inl NullDereference
                 | p # _ \<Rightarrow>
                     if HeaderBlockTime blk >
                          GetBlockTime p + sint (nPowTargetSpacing params) * 2
                     then Inr (GetCompact (powLimit params))
                     else LwmaCalculateNextWorkRequired pindexLast params))
      else LwmaCalculateNextWorkRequired pindexLast params)"

subsection \<open>GetNextWorkRequired\<close>

definition GetNextWorkRequired ::
    "chain \<Rightarrow> CBlockHeader option \<Rightarrow> Params \<Rightarrow> error + 32 word" where
  "GetNextWorkRequired pindexLast pblock params =
     (case pindexLast of
        [] \<Rightarrow> Inl AssertionFailed
      | p # _ \<Rightarrow>
          if sint (nHeight p) + 1 < sint (nZawyLWMAHeight params)
          then DigishieldGetNextWorkRequired pindexLast pblock params
          else LwmaGetNextWorkRequired pindexLast pblock params)"

subsection \<open>CheckProofOfWork\<close>

text \<open>The parameter \<^verbatim>\<open>nBits\<close> of the source is written \<open>nBits'\<close>: the name is a field here.\<close>

definition CheckProofOfWork :: "uint256 \<Rightarrow> 32 word \<Rightarrow> Params \<Rightarrow> bool" where
  "CheckProofOfWork hash nBits' params =
     (case SetCompact nBits' of (bnTarget, fNegative, fOverflow) \<Rightarrow>
        if fNegative \<or> bnTarget = 0 \<or> fOverflow \<or> bnTarget > powLimit params then False
        else if hash > bnTarget then False
        else True)"

subsection \<open>CheckEquihashSolution\<close>

text \<open>
  The Equihash library is external to \<^verbatim>\<open>pow.cpp\<close>: the initialisation of the BLAKE2b state
  for \<open>(n, k)\<close>, the absorption of bytes, and the verifier. They are parameters of the model,
  over any type \<open>'st\<close> of hash states.
\<close>

record 'st Equihash =
  EhInitialiseState :: "nat \<Rightarrow> nat \<Rightarrow> 'st"
  crypto_generichash_blake2b_update :: "'st \<Rightarrow> 8 word list \<Rightarrow> 'st"
  EhIsValidSolution :: "nat \<Rightarrow> nat \<Rightarrow> 'st \<Rightarrow> 8 word list \<Rightarrow> bool"

text \<open>
  Modelled from the spec: the serialisation of \<^verbatim>\<open>CEquihashInput\<close> and of the nonce, which is
  not among the sources. The fields \<^verbatim>\<open>version | hashPrevBlock | hashMerkleRoot | hashReserved
  | nTime | nBits\<close> are written little-endian in widths of 4, 32, 32, 32, 4 and 4 bytes,
  followed by the 32 bytes of the nonce.
\<close>

definition le_bytes :: "nat \<Rightarrow> 'a::len word \<Rightarrow> 8 word list" where
  "le_bytes n w = map (\<lambda>i. ucast (drop_bit (8 * i) w)) [0..<n]"

definition CEquihashInput :: "CBlockHeader \<Rightarrow> 8 word list" where
  "CEquihashInput h =
     le_bytes 4 (nVersion h) @ le_bytes 32 (hashPrevBlock h) @ le_bytes 32 (hashMerkleRoot h) @
     le_bytes 32 (hashReserved h) @ le_bytes 4 (CBlockHeader.nTime h) @
     le_bytes 4 (CBlockHeader.nBits h)"

text \<open>The hash state handed to the verifier: initialised for \<open>(n, k)\<close>, then fed \<open>I || V\<close>.\<close>

definition EquihashState :: "'st Equihash \<Rightarrow> nat \<Rightarrow> nat \<Rightarrow> CBlockHeader \<Rightarrow> 'st" where
  "EquihashState eh n k pblock =
     crypto_generichash_blake2b_update eh (EhInitialiseState eh n k)
       (CEquihashInput pblock @ le_bytes 32 (nNonce pblock))"

text \<open>
  The result is the returned boolean together with the list of \<open>(n, k)\<close> pairs the verifier
  was invoked with, so that not invoking it can be stated.
\<close>

definition CheckEquihashSolution ::
    "'st Equihash \<Rightarrow> CBlockHeader \<Rightarrow> bool \<times> (nat \<times> nat) list" where
  "CheckEquihashSolution eh pblock =
     (let nSolSize = length (nSolution pblock);
          nk = (if nSolSize = 1344 then Some (200, 9)
                else if nSolSize = 36 then Some (48, 5)
                else if nSolSize = 400 then Some (192, 7)
                else if nSolSize = 100 then Some (144, 5)
                else if nSolSize = 68 then Some (96, 5)
                else None)
      in case nk of
           None \<Rightarrow> (False, [])
         | Some (n, k) \<Rightarrow>
             (EhIsValidSolution eh n k (EquihashState eh n k pblock) (nSolution pblock),
              [(n, k)]))"

subsection \<open>The weighted solvetime sum of the specification\<close>

text \<open>
  The sum the LWMA description asks for, \<open>t = \<Sum> solvetime\<^sub>i * j\<close> over the window with \<open>j\<close>
  the 1-based position, in unbounded integers. It follows the specification's words and is
  compared with the accumulator of \<open>LwmaLoop\<close>; the ancestor lookups are taken to succeed.
\<close>

fun SpecWeightedSolvetimeSum :: "chain \<Rightarrow> int \<Rightarrow> bool \<Rightarrow> int list \<Rightarrow> int \<Rightarrow> int" where
  "SpecWeightedSolvetimeSum pindexLast T limit_st [] j = 0"
| "SpecWeightedSolvetimeSum pindexLast T limit_st (i # rest) j =
     (let solvetime0 = GetBlockTime (hd (GetAncestor pindexLast i)) -
                       GetBlockTime (hd (GetAncestor pindexLast (i - 1)));
          solvetime = (if limit_st \<and> solvetime0 > 6 * T then 6 * T else solvetime0)
      in solvetime * (j + 1) + SpecWeightedSolvetimeSum pindexLast T limit_st rest (j + 1))"

subsection \<open>Example inputs\<close>

text \<open>
  Two parameter sets and a family of chains, used where a statement is evaluated at a
  concrete input. The windows and spacings are those of a 150-second network; the LWMA
  height is low so that short chains reach both engines.
\<close>

definition main_params :: Params where
  "main_params = \<lparr>network = MAIN,
     powLimit = 0x0007ffffffffffffffffffffffffffffffffffffffffffffffffffffffffffff,
     fPowNoRetargeting = False, fPowAllowMinDifficultyBlocks = False,
     nZawyLWMAHeight = 60, nEquihashForkHeight = 95005,
     nDigishieldAveragingWindow = 17, nDigishieldTargetSpacing = 150,
     nPowTargetSpacing = 150, nZawyLwmaAveragingWindow = 45,
     nZawyLwmaAdjustedWeight = 3443, nZawyLwmaMinDenominator = 10,
     bZawyLwmaSolvetimeLimitation = True\<rparr>"

definition regtest_params :: Params where
  "regtest_params = \<lparr>network = REGTEST,
     powLimit = 0x0f0f0f0f0f0f0f0f0f0f0f0f0f0f0f0f0f0f0f0f0f0f0f0f0f0f0f0f0f0f0f0f,
     fPowNoRetargeting = True, fPowAllowMinDifficultyBlocks = True,
     nZawyLWMAHeight = 60, nEquihashForkHeight = 95005,
     nDigishieldAveragingWindow = 17, nDigishieldTargetSpacing = 150,
     nPowTargetSpacing = 150, nZawyLwmaAveragingWindow = 45,
     nZawyLwmaAdjustedWeight = 3443, nZawyLwmaMinDenominator = 10,
     bZawyLwmaSolvetimeLimitation = True\<rparr>"

text \<open>
  A chain of \<open>n\<close> blocks at heights \<open>n - 1\<close> down to 0, the block at height \<open>h\<close> stamped
  \<open>t0 + spacing * h\<close>, all with the compact \<open>b\<close>.
\<close>

definition uniform_chain :: "nat \<Rightarrow> nat \<Rightarrow> nat \<Rightarrow> 32 word \<Rightarrow> chain" where
  "uniform_chain n t0 spacing b =
     map (\<lambda>h. \<lparr>nHeight = of_nat h, nTime = of_nat (t0 + spacing * h), nBits = b\<rparr>)
       (rev [0..<n])"

text \<open>The chain used in the examples: blocks 150 seconds apart, all at one difficulty.\<close>

definition example_chain :: "nat \<Rightarrow> chain" where
  "example_chain n = uniform_chain n 1500000000 150 0x1e7fffff"

text \<open>A candidate header stamped \<open>t\<close>; only its timestamp is read by the retarget.\<close>

definition example_header :: "32 word \<Rightarrow> CBlockHeader" where
  "example_header t = \<lparr>nVersion = 4, hashPrevBlock = 0, hashMerkleRoot = 0, hashReserved = 0,
     CBlockHeader.nTime = t, CBlockHeader.nBits = 0x1e7fffff, nNonce = 0, nSolution = []\<rparr>"

text \<open>
  A stalled chain: 69 blocks 150 seconds apart, then a tip at height 69 stamped 50,000,000
  seconds (about 19 months) after its parent.
\<close>

definition stalled_chain :: chain where
  "stalled_chain =
     \<lparr>nHeight = 69, nTime = 1550010200, nBits = 0x1e7fffff\<rparr> # example_chain 69"

text \<open>An Equihash environment whose verifier accepts everything, and a header with a solution of \<open>n\<close> bytes.\<close>

definition accepting_equihash :: "unit Equihash" where
  "accepting_equihash =
     \<lparr>EhInitialiseState = (\<lambda>n k. ()), crypto_generichash_blake2b_update = (\<lambda>s bs. s),
      EhIsValidSolution = (\<lambda>n k s sol. True)\<rparr>"

definition header_with_solution :: "nat \<Rightarrow> CBlockHeader" where
  "header_with_solution n = (example_header 1500000000)\<lparr>nSolution := replicate n 0\<rparr>"

section \<open>Theorems\<close>

subsection \<open>The compact codec: decoding an encoded target never exceeds it\<close>

lemma bits_upper: "n < 2 ^ bits n"
proof (induction n rule: bits.induct)
  case (1 n)
  show ?case
  proof (cases "n = 0")
    case True then show ?thesis by (simp add: bits.simps)
  next
    case False
    with 1 have "n div 2 < 2 ^ bits (n div 2)" by simp
    then have "n < 2 * 2 ^ bits (n div 2)" by linarith
    with False show ?thesis by (subst bits.simps) simp
  qed
qed

lemma bits_lower: "n \<noteq> 0 \<Longrightarrow> 2 ^ (bits n - 1) \<le> n"
proof (induction n rule: bits.induct)
  case (1 n)
  show ?case
  proof (cases "n div 2 = 0")
    case True
    with 1 have "n = 1" by presburger
    then show ?thesis by (simp add: bits.simps)
  next
    case False
    with 1 have ih: "2 ^ (bits (n div 2) - 1) \<le> n div 2" by simp
    from False have "bits (n div 2) \<noteq> 0" by (subst bits.simps) simp
    then have "(2::nat) ^ bits (n div 2) = 2 * 2 ^ (bits (n div 2) - 1)"
      by (cases "bits (n div 2)") simp_all
    with ih have "2 ^ bits (n div 2) \<le> n" by linarith
    with 1 show ?thesis by (subst bits.simps) simp
  qed
qed

lemma unat_mant: "unat ((w :: 32 word) AND 0x007fffff) = unat w mod 2 ^ 23"
proof -
  have "(0x007fffff :: 32 word) = mask 23" by (simp add: mask_eq_exp_minus_1)
  then have "w AND 0x007fffff = take_bit 23 w" by (simp only: take_bit_eq_mask)
  then have "unat (w AND 0x007fffff) = take_bit 23 (unat w)"
    by (simp only: unsigned_take_bit_eq)
  then show ?thesis by (simp only: take_bit_eq_mod)
qed

lemma unat_expo: "unat (drop_bit 24 (w :: 32 word)) = unat w div 2 ^ 24"
  by (subst unat_drop_bit_eq) (simp only: drop_bit_eq_div)

lemma compact_fields:
  assumes "m < 2 ^ 23" "e < 256"
  shows "unat (drop_bit 24 (word_of_nat (m + e * 2 ^ 24) :: 32 word)) = e"
    and "unat ((word_of_nat (m + e * 2 ^ 24) :: 32 word) AND 0x007fffff) = m"
proof -
  from assms have lt: "m + e * 2 ^ 24 < 2 ^ 32" by simp
  then have u: "unat (word_of_nat (m + e * 2 ^ 24) :: 32 word) = m + e * 2 ^ 24"
    by (subst unat_of_nat) simp
  from assms show "unat (drop_bit 24 (word_of_nat (m + e * 2 ^ 24) :: 32 word)) = e"
    unfolding unat_expo u by simp
  have "(m + e * 2 ^ 24) mod 2 ^ 23 = m"
  proof -
    have "e * 2 ^ 24 = (2 * e) * 2 ^ 23" by simp
    then have "(m + e * 2 ^ 24) mod 2 ^ 23 = m mod 2 ^ 23" by (metis mod_mult_self1)
    with assms show ?thesis by simp
  qed
  then show "unat ((word_of_nat (m + e * 2 ^ 24) :: 32 word) AND 0x007fffff) = m"
    unfolding unat_mant u .
qed


lemma CompactTarget_fields:
  assumes "m < 2 ^ 23" "e < 256"
  shows "CompactTarget (word_of_nat (m + e * 2 ^ 24)) =
    (if e \<le> 3 then word_of_nat (m div 2 ^ (8 * (3 - e))) else word_of_nat (m * 2 ^ (8 * (e - 3))))"
  unfolding CompactTarget_def SetCompact_def Let_def compact_fields [OF assms]
  by (cases "e \<le> 3") (simp_all only: fst_conv if_True if_False)

lemma bytes_bound: "v < 2 ^ (8 * ((bits v + 7) div 8))"
proof -
  have "bits v \<le> 8 * ((bits v + 7) div 8)" by presburger
  then have "(2::nat) ^ bits v \<le> 2 ^ (8 * ((bits v + 7) div 8))"
    by (rule power_increasing) simp
  with bits_upper [of v] show ?thesis by linarith
qed

lemma bits_le: assumes "v < 2 ^ n" shows "bits v \<le> n"
proof (cases "v = 0")
  case True then show ?thesis by (simp add: bits.simps)
next
  case False
  from bits_lower [OF False] assms have "(2::nat) ^ (bits v - 1) < 2 ^ n" by linarith
  then have "bits v - 1 < n" by simp
  then show ?thesis by simp
qed

lemma GetCompact_form:
  fixes x :: uint256
  shows "\<exists>m e. GetCompact x = word_of_nat (m + e * 2 ^ 24) \<and> m < 2 ^ 23 \<and> e \<le> 33 \<and>
           compact_val m e \<le> unat x"
proof -
  define v where "v = unat x"
  define s where "s = (bits v + 7) div 8"
  have "v < 2 ^ 256" unfolding v_def using unsigned_less [of x, where 'a = nat] by simp
  then have "bits v \<le> 256" by (rule bits_le)
  then have s32: "s \<le> 32" unfolding s_def by simp
  have vb: "v < 2 ^ (8 * s)" unfolding s_def by (rule bytes_bound)
  show ?thesis
  proof (cases "s \<le> 3")
    case True
    define c where "c = v * 2 ^ (8 * (3 - s))"
    have "c < 2 ^ (8 * s) * 2 ^ (8 * (3 - s))" unfolding c_def using vb by simp
    also have "\<dots> = 2 ^ 24"
    proof -
      have "8 * s + 8 * (3 - s) = 24" using True by simp
      then show ?thesis by (simp only: power_add [symmetric])
    qed
    finally have c24: "c < 2 ^ 24" .
    have cdiv: "c div 2 ^ (8 * (3 - s)) = v" unfolding c_def by simp
    show ?thesis
    proof (cases "2 ^ 23 \<le> c")
      case False
      then have g: "GetCompact x = word_of_nat (c + s * 2 ^ 24)"
        using True by (simp add: GetCompact_def Let_def flip: v_def s_def c_def)
      have "compact_val c s \<le> unat x" using True cdiv by (simp add: compact_val_def v_def)
      with g False s32 show ?thesis by (intro exI [of _ c] exI [of _ s]) simp
    next
      case big: True
      then have g: "GetCompact x = word_of_nat (c div 2 ^ 8 + (s + 1) * 2 ^ 24)"
        using True by (simp add: GetCompact_def Let_def flip: v_def s_def c_def)
      have m: "c div 2 ^ 8 < 2 ^ 23" using c24 by simp
      have "compact_val (c div 2 ^ 8) (s + 1) \<le> v"
      proof (cases "s + 1 \<le> 3")
        case True
        then have "8 + 8 * (3 - (s + 1)) = 8 * (3 - s)" by simp
        then have "c div 2 ^ 8 div 2 ^ (8 * (3 - (s + 1))) = c div 2 ^ (8 * (3 - s))"
          by (simp only: div_mult2_eq [symmetric] power_add [symmetric])
        with True cdiv show ?thesis by (simp add: compact_val_def)
      next
        case False
        with \<open>s \<le> 3\<close> have "s = 3" by simp
        then have "c = v" by (simp add: c_def)
        with \<open>s = 3\<close> show ?thesis by (simp add: compact_val_def)
      qed
      with g m s32 show ?thesis
        by (intro exI [of _ "c div 2 ^ 8"] exI [of _ "s + 1"]) (simp add: v_def)
    qed
  next
    case False
    define c where "c = v div 2 ^ (8 * (s - 3))"
    have "8 * s = 8 * (s - 3) + 24" using False by simp
    then have "v < 2 ^ (8 * (s - 3)) * 2 ^ 24" using vb by (simp only: power_add)
    then have c24: "c < 2 ^ 24" unfolding c_def
      by (simp add: less_mult_imp_div_less mult.commute)
    have cle: "c * 2 ^ (8 * (s - 3)) \<le> v" unfolding c_def by simp
    show ?thesis
    proof (cases "2 ^ 23 \<le> c")
      case nb: False
      then have g: "GetCompact x = word_of_nat (c + s * 2 ^ 24)"
        using False by (simp add: GetCompact_def Let_def flip: v_def s_def c_def)
      have "compact_val c s \<le> unat x" using False cle by (simp add: compact_val_def v_def)
      with g nb s32 show ?thesis by (intro exI [of _ c] exI [of _ s]) simp
    next
      case big: True
      then have g: "GetCompact x = word_of_nat (c div 2 ^ 8 + (s + 1) * 2 ^ 24)"
        using False by (simp add: GetCompact_def Let_def flip: v_def s_def c_def)
      have m: "c div 2 ^ 8 < 2 ^ 23" using c24 by simp
      have "s + 1 - 3 = Suc (s - 3)" using False by simp
      then have "c div 2 ^ 8 * 2 ^ (8 * (s + 1 - 3)) = (c div 2 ^ 8 * 2 ^ 8) * 2 ^ (8 * (s - 3))"
        by (simp add: power_add)
      also have "\<dots> \<le> c * 2 ^ (8 * (s - 3))" by (rule mult_right_mono) simp_all
      finally have "compact_val (c div 2 ^ 8) (s + 1) \<le> v"
        using False cle by (simp add: compact_val_def)
      with g m s32 show ?thesis
        by (intro exI [of _ "c div 2 ^ 8"] exI [of _ "s + 1"]) (simp add: v_def)
    qed
  qed
qed

lemma CompactTarget_GetCompact_le: "CompactTarget (GetCompact x) \<le> x"
proof -
  obtain m e where g: "GetCompact x = word_of_nat (m + e * 2 ^ 24)" and m: "m < 2 ^ 23"
    and e: "e \<le> 33" and le: "compact_val m e \<le> unat x"
    using GetCompact_form by blast
  from e have e256: "e < 256" by simp
  have "CompactTarget (GetCompact x) = word_of_nat (compact_val m e)"
    unfolding g CompactTarget_fields [OF m e256] compact_val_def by simp
  moreover have "unat (word_of_nat (compact_val m e) :: uint256) = compact_val m e"
  proof -
    have "compact_val m e < 2 ^ 256" using le unsigned_less [of x, where 'a = nat]
      by simp
    then show ?thesis by (subst unat_of_nat) simp
  qed
  ultimately show ?thesis using le by (simp add: word_le_nat_alt)
qed

lemma bits_eqI:
  assumes "2 ^ n \<le> v" "v < 2 ^ (n + 1)"
  shows "bits v = n + 1"
proof -
  from assms(2) have "bits v \<le> n + 1" by (rule bits_le)
  moreover have "n < bits v"
  proof -
    from assms(1) bits_upper [of v] have "(2::nat) ^ n < 2 ^ bits v" by linarith
    then show ?thesis by simp
  qed
  ultimately show ?thesis by simp
qed

lemma nSize_eqI:
  assumes "2 ^ (8 * s) \<le> v" "v < 2 ^ (8 * s + 8)"
  shows "(bits v + 7) div 8 = s + 1"
proof -
  from assms(2) have "bits v \<le> 8 * s + 8" by (rule bits_le)
  moreover have "8 * s < bits v"
  proof -
    from assms(1) bits_upper [of v] have "(2::nat) ^ (8 * s) < 2 ^ bits v" by linarith
    then show ?thesis by simp
  qed
  ultimately show ?thesis by (intro div_nat_eqI) simp_all
qed

lemma GetCompact_sized:
  assumes "2 ^ (8 * s) \<le> unat bn" "unat bn < 2 ^ (8 * s + 8)"
  shows "GetCompact bn =
     (let nCompact = (if s + 1 \<le> 3 then unat bn * 2 ^ (8 * (3 - (s + 1)))
                      else unat bn div 2 ^ (8 * (s + 1 - 3)))
      in if 2 ^ 23 \<le> nCompact
         then word_of_nat (nCompact div 2 ^ 8 + (s + 1 + 1) * 2 ^ 24)
         else word_of_nat (nCompact + (s + 1) * 2 ^ 24))"
  unfolding GetCompact_def Let_def nSize_eqI [OF assms] ..

subsection \<open>The Digishield walk in closed form\<close>

lemma DigishieldWalk_eq:
  "DigishieldWalk W i tot c =
     (i + int (min (nat (W - i)) (length c)),
      tot + sum_list (map (\<lambda>b. CompactTarget (nBits b)) (take (nat (W - i)) c)),
      drop (nat (W - i)) c)"
proof (induction c arbitrary: i tot)
  case Nil
  show ?case by simp
next
  case (Cons b c)
  show ?case
  proof (cases "i < W")
    case True
    then have n: "nat (W - i) = Suc (nat (W - (i + 1)))" by simp
    from True have "DigishieldWalk W i tot (b # c) =
        DigishieldWalk W (i + 1) (tot + CompactTarget (nBits b)) c" by simp
    also note Cons.IH
    finally show ?thesis unfolding n by (simp add: add.assoc)
  next
    case False
    then show ?thesis by simp
  qed
qed

lemma DigishieldGet_Cons:
  "DigishieldGetNextWorkRequired (p # rest) pblock params =
     (if fPowAllowMinDifficultyBlocks params \<and>
         (case pblock of
            None \<Rightarrow> False
          | Some blk \<Rightarrow>
              HeaderBlockTime blk > GetBlockTime p + sint (nDigishieldTargetSpacing params) * 6)
      then Inr (GetCompact (powLimit params))
      else if DigishieldReset p params then Inr (GetCompact (powLimit params))
      else if int (length (p # rest)) \<le> sint (nDigishieldAveragingWindow params)
      then Inr (GetCompact (powLimit params))
      else
        (case u256_div
                (sum_list (map (\<lambda>b. CompactTarget (nBits b))
                   (take (nat (sint (nDigishieldAveragingWindow params))) (p # rest))))
                (of_int64 (sint (nDigishieldAveragingWindow params))) of
           Inl e \<Rightarrow> Inl e
         | Inr bnAvg \<Rightarrow>
             DigishieldCalculateNextWorkRequired (p # rest) bnAvg
               (GetMedianTimePast
                  (drop (nat (sint (nDigishieldAveragingWindow params))) (p # rest)))
               params))"
proof -
  have d: "drop (nat W) (p # rest) = [] \<longleftrightarrow> int (length (p # rest)) \<le> W" for W
    by (cases "W \<le> 0") auto
  show ?thesis
    unfolding DigishieldGetNextWorkRequired_def Let_def DigishieldWalk_eq
    by (simp only: list.simps if_False prod.case d diff_zero add_0 list.sel)
qed

subsection \<open>Every result is saturated or taken from the parent\<close>

lemma GetCompact_le: "x \<le> L \<Longrightarrow> CompactTarget (GetCompact x) \<le> L"
  by (rule order_trans [OF CompactTarget_GetCompact_le])

lemma saturated_le: "CompactTarget (GetCompact (if x > L then L else x)) \<le> L"
  by (rule GetCompact_le) (simp add: not_less)

lemma if_Inl_eq_Inr: "((if c then Inl e else x) = Inr v) \<longleftrightarrow> (\<not> c \<and> x = Inr v)"
  by simp

lemma case_Inl_eq_Inr:
  "((case r of Inl e \<Rightarrow> Inl e | Inr y \<Rightarrow> f y) = Inr v) \<longleftrightarrow> (\<exists>y. r = Inr y \<and> f y = Inr v)"
  by (cases r) simp_all

lemma DigishieldCalculate_bound:
  assumes "DigishieldCalculateNextWorkRequired (p # rest) bnAvg ft params = Inr v"
    and "CompactTarget (nBits p) \<le> powLimit params"
  shows "CompactTarget v \<le> powLimit params"
proof (cases "fPowNoRetargeting params")
  case True
  with assms show ?thesis by (simp add: DigishieldCalculateNextWorkRequired_def)
next
  case False
  with assms(1) have "\<exists>x. v = GetCompact (if x > powLimit params then powLimit params else x)"
    unfolding DigishieldCalculateNextWorkRequired_def Let_def
    apply (simp only: list.case if_False case_Inl_eq_Inr sum.inject)
    apply (elim conjE exE)
    apply (rule exI)
    apply (erule sym)
    done
  then obtain x where "v = GetCompact (if x > powLimit params then powLimit params else x)" ..
  then show ?thesis by (simp only: saturated_le)
qed

lemma DigishieldGet_bound:
  assumes "DigishieldGetNextWorkRequired (p # rest) pblock params = Inr v"
    and "CompactTarget (nBits p) \<le> powLimit params"
  shows "CompactTarget v \<le> powLimit params"
proof -
  from assms(1) have "v = GetCompact (powLimit params) \<or>
      (\<exists>bnAvg ft. DigishieldCalculateNextWorkRequired (p # rest) bnAvg ft params = Inr v)"
    by (auto simp: DigishieldGetNextWorkRequired_def Let_def
        split: if_splits prod.splits sum.splits)
  then show ?thesis
  proof (elim disjE exE)
    assume "v = GetCompact (powLimit params)"
    then show ?thesis by (simp only: CompactTarget_GetCompact_le)
  next
    fix bnAvg ft
    assume "DigishieldCalculateNextWorkRequired (p # rest) bnAvg ft params = Inr v"
    then show ?thesis using assms(2) by (rule DigishieldCalculate_bound)
  qed
qed

lemma LwmaCalculate_bound:
  assumes "LwmaCalculateNextWorkRequired (p # rest) params = Inr v"
    and "CompactTarget (nBits p) \<le> powLimit params"
  shows "CompactTarget v \<le> powLimit params"
proof (cases "fPowNoRetargeting params")
  case True
  with assms show ?thesis by (simp add: LwmaCalculateNextWorkRequired_def)
next
  case False
  with assms(1) have "\<exists>x. v = GetCompact (if x > powLimit params then powLimit params else x)"
    unfolding LwmaCalculateNextWorkRequired_def Let_def
    apply (simp only: list.case if_False if_Inl_eq_Inr case_Inl_eq_Inr split_paired_Ex
        prod.case sum.inject)
    apply (elim conjE exE)
    apply (rule exI)
    apply (erule sym)
    done
  then obtain x where "v = GetCompact (if x > powLimit params then powLimit params else x)" ..
  then show ?thesis by (simp only: saturated_le)
qed

lemma LwmaGet_bound:
  assumes "LwmaGetNextWorkRequired (p # rest) pblock params = Inr v"
    and "CompactTarget (nBits p) \<le> powLimit params"
  shows "CompactTarget v \<le> powLimit params"
proof -
  from assms(1) have "v = GetCompact (powLimit params) \<or>
      LwmaCalculateNextWorkRequired (p # rest) params = Inr v"
    by (auto simp: LwmaGetNextWorkRequired_def split: if_splits option.splits)
  then show ?thesis
  proof
    assume "v = GetCompact (powLimit params)"
    then show ?thesis by (simp only: CompactTarget_GetCompact_le)
  next
    assume "LwmaCalculateNextWorkRequired (p # rest) params = Inr v"
    then show ?thesis using assms(2) by (rule LwmaCalculate_bound)
  qed
qed

subsection \<open>Evaluation at the example inputs\<close>

lemmas engine_eval =
  GetNextWorkRequired_def DigishieldGet_Cons DigishieldReset_def u256_div_def of_int64_def
  DigishieldCalculateNextWorkRequired_def Let_def GetMedianTimePast_def GetBlockTime_def
  HeaderBlockTime_def CompactTarget_def SetCompact_def unat_expo unat_mant
  DigishieldAveragingWindowTimespan_def DigishieldMinActualTimespan_def
  DigishieldMaxActualTimespan_def cpp_div_def example_chain_def uniform_chain_def upt_rec

lemma GetCompact_retargeted:
  "GetCompact 883423427076900496234462052453431574243309629542714078511691846335330950 =
     0x1e7ffffe"
  by (subst GetCompact_sized [where s = 29]) simp_all

lemma example_digishield_result:
  "GetNextWorkRequired (example_chain 30) None main_params = Inr 0x1e7ffffe"
  by (simp add: engine_eval main_params_def GetCompact_retargeted)

lemma of_int64_sint_eq_0: "of_int64 (sint (w :: 32 word)) = 0 \<longleftrightarrow> sint w = 0"
proof
  assume z: "of_int64 (sint w) = 0"
  have "sint w mod 2 ^ 64 < 2 ^ 256"
    by (rule less_trans [of _ "2 ^ 64"]) simp_all
  moreover have "0 \<le> sint w mod 2 ^ 64" by simp
  ultimately have "uint (word_of_int (sint w mod 2 ^ 64) :: 256 word) = sint w mod 2 ^ 64"
    by (simp add: uint_word_of_int take_bit_eq_mod)
  with z have m: "sint w mod 2 ^ 64 = 0" by (simp add: of_int64_def)
  have lo: "- (2 ^ 31) \<le> sint w" using sint_ge [of w] by simp
  have hi: "sint w < 2 ^ 31" using sint_lt [of w] by simp
  show "sint w = 0"
  proof (rule ccontr)
    assume nz: "sint w \<noteq> 0"
    from m have "(2 ^ 64 :: int) dvd sint w" by (simp add: dvd_eq_mod_eq_0)
    with nz have "\<bar>2 ^ 64 :: int\<bar> \<le> \<bar>sint w\<bar>" by (rule dvd_imp_le_int)
    with lo hi show False by simp
  qed
next
  assume "sint w = 0"
  then show "of_int64 (sint w) = 0" by (simp add: of_int64_def)
qed

lemma example_chain_Suc:
  "example_chain (Suc n) =
     \<lparr>nHeight = of_nat n, nTime = of_nat (1500000000 + 150 * n), nBits = 0x1e7fffff\<rparr> #
     example_chain n"
  by (simp add: example_chain_def uniform_chain_def)

lemma length_example_chain: "length (example_chain n) = n"
  by (simp add: example_chain_def uniform_chain_def)

lemma example_chain_30:
  "example_chain 30 =
     \<lparr>nHeight = 29, nTime = 1500004350, nBits = 0x1e7fffff\<rparr> # example_chain 29"
  using example_chain_Suc [of 29] by simp

lemma example_chain_70:
  "example_chain 70 =
     \<lparr>nHeight = 69, nTime = 1500010350, nBits = 0x1e7fffff\<rparr> # example_chain 69"
  using example_chain_Suc [of 69] by simp

lemma GetCompact_regtest_limit: "GetCompact (powLimit regtest_params) = 0x200f0f0f"
  unfolding regtest_params_def
  by (simp, subst GetCompact_sized [where s = 31]) simp_all

subsection \<open>Digishield ignores the min-difficulty flag once the escape is passed\<close>

lemma DigishieldReset_update:
  "DigishieldReset p (params\<lparr>fPowAllowMinDifficultyBlocks := b\<rparr>) = DigishieldReset p params"
  by (simp add: DigishieldReset_def)

lemma timespan_update:
  "DigishieldAveragingWindowTimespan (params\<lparr>fPowAllowMinDifficultyBlocks := b\<rparr>) =
     DigishieldAveragingWindowTimespan params"
  "DigishieldMinActualTimespan (params\<lparr>fPowAllowMinDifficultyBlocks := b\<rparr>) =
     DigishieldMinActualTimespan params"
  "DigishieldMaxActualTimespan (params\<lparr>fPowAllowMinDifficultyBlocks := b\<rparr>) =
     DigishieldMaxActualTimespan params"
  by (simp_all add: DigishieldAveragingWindowTimespan_def DigishieldMinActualTimespan_def
      DigishieldMaxActualTimespan_def)

lemma DigishieldCalculate_update:
  "DigishieldCalculateNextWorkRequired c a f (params\<lparr>fPowAllowMinDifficultyBlocks := b\<rparr>) =
   DigishieldCalculateNextWorkRequired c a f params"
  unfolding DigishieldCalculateNextWorkRequired_def timespan_update
  by (cases c) simp_all

lemma DigishieldCalculate_not_null:
  "DigishieldCalculateNextWorkRequired (p # rest) a f params \<noteq> Inl NullDereference"
  by (simp add: DigishieldCalculateNextWorkRequired_def Let_def u256_div_def)

lemma DigishieldGet_not_null:
  "DigishieldGetNextWorkRequired pindexLast pblock params \<noteq> Inl NullDereference"
proof (cases pindexLast)
  case Nil
  then show ?thesis by (simp add: DigishieldGetNextWorkRequired_def)
next
  case (Cons p rest)
  show ?thesis unfolding Cons DigishieldGet_Cons
    by (simp add: u256_div_def DigishieldCalculate_not_null)
qed

lemma GetCompact_retargeted_window_anchor:
  "GetCompact 870605126370294489034197308947244527871936117270917835019561415623798697 =
     0x1e7e2489"
  by (subst GetCompact_sized [where s = 29]) simp_all

subsection \<open>Ancestor lookups on a well-formed chain, and the LWMA loop at the examples\<close>

lemma chain_ok_drop: "chain_ok c \<Longrightarrow> chain_ok (drop n c)"
proof (induction c arbitrary: n)
  case Nil
  show ?case by simp
next
  case (Cons b c)
  then show ?case by (cases n) simp_all
qed

lemma chain_ok_nth_height:
  "chain_ok c \<Longrightarrow> n < length c \<Longrightarrow> sint (nHeight (c ! n)) = int (length c) - 1 - int n"
proof (induction c arbitrary: n)
  case Nil
  then show ?case by simp
next
  case (Cons b c)
  then show ?case by (cases n) simp_all
qed

lemma GetAncestor_valid:
  assumes ok: "chain_ok (p # rest)" and lo: "0 \<le> i" and hi: "i \<le> sint (nHeight p)"
  shows "\<exists>b r. GetAncestor (p # rest) i = b # r \<and> chain_ok (b # r) \<and> sint (nHeight b) = i"
proof -
  from ok have h: "sint (nHeight p) = int (length rest)" by simp
  define n where "n = nat (sint (nHeight p) - i)"
  from lo hi h have n: "n < length (p # rest)" and ni: "int n = int (length rest) - i"
    by (simp_all add: n_def)
  have g: "GetAncestor (p # rest) i = drop n (p # rest)"
    using lo hi by (simp add: GetAncestor_def n_def)
  from n have d: "drop n (p # rest) = (p # rest) ! n # drop (Suc n) (p # rest)"
    by (rule Cons_nth_drop_Suc [symmetric])
  have "chain_ok (drop n (p # rest))" using ok by (rule chain_ok_drop)
  moreover have "sint (nHeight ((p # rest) ! n)) = i"
    using chain_ok_nth_height [OF ok n] ni by simp
  ultimately show ?thesis unfolding g d by blast
qed

lemma LwmaLoop_lookups:
  assumes ok: "chain_ok (p # rest)"
    and rng: "\<forall>i\<in>set heights. 1 \<le> i \<and> i \<le> sint (nHeight p)"
  shows "LwmaLoop (p # rest) T limit_st d heights s \<noteq> Inl NullDereference \<and>
         LwmaLoop (p # rest) T limit_st d heights s \<noteq> Inl AssertionFailed"
  using rng
proof (induction heights arbitrary: s)
  case Nil
  show ?case by simp
next
  case (Cons i heights)
  obtain t j sum_target where s: "s = (t, j, sum_target)" by (cases s)
  from Cons.prems have i: "0 \<le> i" "i \<le> sint (nHeight p)" "1 \<le> i" by simp_all
  from GetAncestor_valid [OF ok i(1,2)] obtain b r
    where a: "GetAncestor (p # rest) i = b # r" and okb: "chain_ok (b # r)"
      and hb: "sint (nHeight b) = i" by blast
  from i hb have "0 \<le> i - 1" "i - 1 \<le> sint (nHeight b)" by simp_all
  from GetAncestor_valid [OF okb this] obtain b' r'
    where a': "GetAncestor (b # r) (i - 1) = b' # r'" by blast
  from Cons.prems have rest: "\<forall>i\<in>set heights. 1 \<le> i \<and> i \<le> sint (nHeight p)" by simp
  show ?case
  proof (cases "d = 0")
    case True
    then show ?thesis unfolding s by (simp add: a a' Let_def u256_div_def)
  next
    case False
    then show ?thesis unfolding s using Cons.IH [OF rest]
      by (simp add: a a' Let_def u256_div_def)
  qed
qed

lemma chain_ok_example: "n < 2 ^ 31 \<Longrightarrow> chain_ok (example_chain n)"
proof (induction n)
  case 0
  show ?case by (simp add: example_chain_def uniform_chain_def)
next
  case (Suc n)
  then have "sint (word_of_nat n :: 32 word) = int n"
    by (simp add: signed_of_nat signed_take_bit_int_eq_self)
  with Suc show ?case by (simp add: example_chain_Suc length_example_chain)
qed

lemma drop_example_chain: "drop k (example_chain n) = example_chain (n - k)"
proof -
  have "drop k (rev [0..<n]) = rev [0..<n - k]"
    by (simp add: drop_rev take_upt)
  then show ?thesis by (simp add: example_chain_def uniform_chain_def drop_map)
qed

lemma GetAncestor_example:
  assumes "sint (nHeight b) = int m" and "0 \<le> j" and "j < int m"
  shows "GetAncestor (b # example_chain m) j =
     \<lparr>nHeight = of_nat (nat j), nTime = of_nat (1500000000 + 150 * nat j), nBits = 0x1e7fffff\<rparr> #
     example_chain (nat j)"
proof -
  from assms have n: "nat (int m - j) = Suc (m - Suc (nat j))" by linarith
  from assms have s: "m - (m - Suc (nat j)) = Suc (nat j)" by linarith
  show ?thesis using assms
    by (simp add: GetAncestor_def n drop_example_chain s example_chain_Suc)
qed

lemma GetAncestor_self:
  assumes "sint (nHeight b) = j" and "0 \<le> j"
  shows "GetAncestor (b # r) j = b # r"
  using assms by (simp add: GetAncestor_def)

lemma CompactTarget_example: "CompactTarget 0x1e7fffff = 0x7fffff * 2 ^ 216"
  by (simp add: CompactTarget_def SetCompact_def Let_def unat_expo unat_mant)

lemma example_quotient:
  "u256_div (CompactTarget 0x1e7fffff) 6972075 =
     Inr 126708824428437803126682092842293230385976861915959607220474800735"
  by (simp add: u256_div_def CompactTarget_example)

lemma stalled_loop:
  "LwmaLoop stalled_chain 150 False 6972075 [25..69] (0, 0, 0) =
     Inr (- 2044818796, 45,
          5701897099279701140700694177903195367368958786218182324921366033075)"
  unfolding stalled_chain_def
  by (simp add: GetAncestor_example GetAncestor_self
      GetBlockTime_def example_quotient to_int32_def Let_def)

lemma stalled_sum: "SpecWeightedSolvetimeSum stalled_chain 150 False [25..69] 0 = 2250148500"
  unfolding stalled_chain_def
  by (simp add: GetAncestor_example GetAncestor_self GetBlockTime_def Let_def)

lemma stalled_case:
  "(case stalled_chain of [] \<Rightarrow> a | p # r \<Rightarrow> f p r) =
     f \<lparr>nHeight = 69, nTime = 1550010200, nBits = 0x1e7fffff\<rparr> (example_chain 69)"
  by (simp add: stalled_chain_def)

lemma GetCompact_stalled:
  "GetCompact 88339491759140409772875854898254205826647278474878298760006723950430975 =
     0x1e0cccb1"
  by (subst GetCompact_sized [where s = 29]) simp_all

lemma stalled_result:
  "LwmaCalculateNextWorkRequired stalled_chain
     (main_params\<lparr>bZawyLwmaSolvetimeLimitation := False\<rparr>) = Inr 0x1e0cccb1"
  unfolding LwmaCalculateNextWorkRequired_def stalled_case
  by (simp add: main_params_def of_int64_def cpp_div_def stalled_loop GetCompact_stalled
      del: upto_rec_numeral)

lemma exact_saturates:
  "of_int64 2250148500 *
     5701897099279701140700694177903195367368958786218182324921366033075 >
   powLimit main_params"
  by (simp add: of_int64_def main_params_def)

lemma solution_length: "length (nSolution (header_with_solution n)) = n"
  by (simp add: header_with_solution_def)

lemma GetCompact_main_limit: "GetCompact (powLimit main_params) = 0x1f07ffff"
  unfolding main_params_def
  by (simp, subst GetCompact_sized [where s = 30]) simp_all

subsection \<open>The claims\<close>

text \<open>
  C1. \<^verbatim>\<open>CheckProofOfWork(powHash, nBits, params)\<close> is true exactly when decoding \<open>nBits\<close>
  reports neither negative nor overflow and gives a non-zero target, the target is at most
  \<open>powLimit\<close>, and the hash, as a 256-bit number, is at most the target. In every other
  case it is false.
\<close>

theorem CheckProofOfWork_iff:
  "CheckProofOfWork hash nBits' params =
     (let (target, negative, overflow) = SetCompact nBits'
      in negative = False \<and> overflow = False \<and> target \<noteq> 0 \<and>
         target \<le> powLimit params \<and> hash \<le> target)"
  by (auto simp: CheckProofOfWork_def split: prod.splits)

theorem CheckProofOfWork_iff_witness:
  "CheckProofOfWork (0x7fffff * 2 ^ 216) 0x1e7fffff main_params = True \<and>
   CheckProofOfWork (0x7fffff * 2 ^ 216 + 1) 0x1e7fffff main_params = False \<and>
   CheckProofOfWork 0 0x00800000 main_params = False"
  using
    CheckProofOfWork_iff [where hash = "0x7fffff * 2 ^ 216" and nBits' = "0x1e7fffff"
      and params = main_params]
    CheckProofOfWork_iff [where hash = "0x7fffff * 2 ^ 216 + 1" and nBits' = "0x1e7fffff"
      and params = main_params]
    CheckProofOfWork_iff [where hash = 0 and nBits' = "0x00800000" and params = main_params]
  by (simp add: SetCompact_def Let_def unat_expo unat_mant main_params_def)

text \<open>
  C2 (invariant I-T). Whenever \<^verbatim>\<open>GetNextWorkRequired\<close> returns a compact, and the compact
  of the parent (the newest block of either averaging window) decodes to a target of at
  most \<open>powLimit\<close>, the returned compact decodes to a target of at most \<open>powLimit\<close>: for
  any candidate header and any parameters. Every computed result is saturated to
  \<open>powLimit\<close> before it is encoded, encoding rounds towards zero, and the only compact
  returned without encoding is the parent's.
\<close>

theorem nextWork_within_powLimit:
  assumes "GetNextWorkRequired pindexLast pblock params = Inr v"
    and "CompactTarget (nBits (hd pindexLast)) \<le> powLimit params"
  shows "CompactTarget v \<le> powLimit params"
proof (cases pindexLast)
  case Nil
  with assms(1) show ?thesis by (simp add: GetNextWorkRequired_def)
next
  case (Cons p rest)
  with assms(2) have b: "CompactTarget (nBits p) \<le> powLimit params" by simp
  from assms(1) Cons have
      "DigishieldGetNextWorkRequired (p # rest) pblock params = Inr v \<or>
       LwmaGetNextWorkRequired (p # rest) pblock params = Inr v"
    by (simp add: GetNextWorkRequired_def split: if_splits)
  then show ?thesis
  proof
    assume "DigishieldGetNextWorkRequired (p # rest) pblock params = Inr v"
    then show ?thesis using b by (rule DigishieldGet_bound)
  next
    assume "LwmaGetNextWorkRequired (p # rest) pblock params = Inr v"
    then show ?thesis using b by (rule LwmaGet_bound)
  qed
qed

theorem nextWork_within_powLimit_witness:
  "GetNextWorkRequired (example_chain 30) None main_params = Inr 0x1e7ffffe \<and>
   CompactTarget (nBits (hd (example_chain 30))) \<le> powLimit main_params \<and>
   CompactTarget 0x1e7ffffe \<le> powLimit main_params"
proof -
  have h1: "GetNextWorkRequired (example_chain 30) None main_params = Inr 0x1e7ffffe"
    by (rule example_digishield_result)
  have h2: "CompactTarget (nBits (hd (example_chain 30))) \<le> powLimit main_params"
    by (simp add: engine_eval main_params_def)
  from nextWork_within_powLimit [OF h1 h2] h1 h2 show ?thesis by (intro conjI)
qed

text \<open>
  C3, as amended. When \<open>fPowNoRetargeting\<close> is true, \<^verbatim>\<open>GetNextWorkRequired\<close> returns the
  parent's \<open>nBits\<close> unchanged provided no earlier exit is taken. On the Digishield path that
  means: the min-difficulty escape is not taken (the rule is off, the candidate is absent, or
  its timestamp is within \<open>6 * nDigishieldTargetSpacing\<close> of the parent's), the height is
  outside the fork-reset window, the averaging window is not 0 and the chain holds more
  blocks than the window. On the LWMA path it means: the min-difficulty rule is off, or the
  candidate is present with a timestamp within \<open>2 * nPowTargetSpacing\<close> of the parent's.
  As stated (for every parent and every candidate) the claim fails: the escape is tested
  first and returns the encoded \<open>powLimit\<close>.
\<close>

theorem noRetargeting_returns_parent_nBits:
  assumes "fPowNoRetargeting params"
    and "sint (nHeight p) + 1 < sint (nZawyLWMAHeight params) \<Longrightarrow>
           (fPowAllowMinDifficultyBlocks params \<longrightarrow>
              (\<forall>blk. pblock = Some blk \<longrightarrow>
                 HeaderBlockTime blk \<le>
                   GetBlockTime p + sint (nDigishieldTargetSpacing params) * 6)) \<and>
           \<not> DigishieldReset p params \<and>
           sint (nDigishieldAveragingWindow params) \<noteq> 0 \<and>
           sint (nDigishieldAveragingWindow params) < int (length (p # rest))"
    and "\<not> sint (nHeight p) + 1 < sint (nZawyLWMAHeight params) \<Longrightarrow>
           (fPowAllowMinDifficultyBlocks params \<longrightarrow>
              (\<exists>blk. pblock = Some blk \<and>
                 HeaderBlockTime blk \<le> GetBlockTime p + sint (nPowTargetSpacing params) * 2))"
  shows "GetNextWorkRequired (p # rest) pblock params = Inr (nBits p)"
proof (cases "sint (nHeight p) + 1 < sint (nZawyLWMAHeight params)")
  case True
  note d = assms(2) [OF True]
  from d have esc: "\<not> (fPowAllowMinDifficultyBlocks params \<and>
         (case pblock of
            None \<Rightarrow> False
          | Some blk \<Rightarrow>
              HeaderBlockTime blk > GetBlockTime p + sint (nDigishieldTargetSpacing params) * 6))"
    by (cases pblock) (auto simp: not_less)
  from d have nz: "of_int64 (sint (nDigishieldAveragingWindow params)) \<noteq> 0"
    by (simp add: of_int64_sint_eq_0)
  from d have len: "\<not> int (length (p # rest)) \<le> sint (nDigishieldAveragingWindow params)"
    by simp
  have "GetNextWorkRequired (p # rest) pblock params =
      DigishieldGetNextWorkRequired (p # rest) pblock params"
    using True by (simp add: GetNextWorkRequired_def)
  also have "\<dots> = Inr (nBits p)"
    unfolding DigishieldGet_Cons using esc d nz len assms(1)
    by (simp only: if_False u256_div_def sum.case DigishieldCalculateNextWorkRequired_def
        list.case if_True)
  finally show ?thesis .
next
  case False
  note l = assms(3) [OF False]
  have "GetNextWorkRequired (p # rest) pblock params =
      LwmaGetNextWorkRequired (p # rest) pblock params"
    using False by (simp add: GetNextWorkRequired_def)
  also have "\<dots> = LwmaCalculateNextWorkRequired (p # rest) params"
    using l by (auto simp: LwmaGetNextWorkRequired_def not_less)
  also have "\<dots> = Inr (nBits p)"
    using assms(1) by (simp add: LwmaCalculateNextWorkRequired_def)
  finally show ?thesis .
qed

theorem noRetargeting_returns_parent_nBits_witness:
  "fPowNoRetargeting regtest_params \<and>
   GetNextWorkRequired (example_chain 30) None regtest_params = Inr 0x1e7fffff \<and>
   GetNextWorkRequired (example_chain 70) (Some (example_header 1500010500)) regtest_params =
     Inr 0x1e7fffff"
proof -
  have nr: "fPowNoRetargeting regtest_params" by (simp add: regtest_params_def)
  have a: "GetNextWorkRequired
             (\<lparr>nHeight = 29, nTime = 1500004350, nBits = 0x1e7fffff\<rparr> # example_chain 29)
             None regtest_params =
           Inr (nBits \<lparr>nHeight = 29, nTime = 1500004350, nBits = 0x1e7fffff\<rparr>)"
    by (rule noRetargeting_returns_parent_nBits)
      (simp_all add: regtest_params_def DigishieldReset_def length_example_chain)
  have b: "GetNextWorkRequired
             (\<lparr>nHeight = 69, nTime = 1500010350, nBits = 0x1e7fffff\<rparr> # example_chain 69)
             (Some (example_header 1500010500)) regtest_params =
           Inr (nBits \<lparr>nHeight = 69, nTime = 1500010350, nBits = 0x1e7fffff\<rparr>)"
    by (rule noRetargeting_returns_parent_nBits)
      (simp_all add: regtest_params_def example_header_def HeaderBlockTime_def GetBlockTime_def)
  from nr a b show ?thesis by (simp add: example_chain_30 example_chain_70)
qed

text \<open>
  The claim as stated fails on regtest-like parameters: the candidate is stamped more than
  \<open>6 * 150\<close> seconds after the parent, and the result is the encoded \<open>powLimit\<close>, not the
  parent's compact.
\<close>

theorem noRetargeting_counterexample:
  "fPowNoRetargeting regtest_params \<and>
   GetNextWorkRequired (example_chain 30) (Some (example_header 1500005251)) regtest_params =
     Inr 0x200f0f0f \<and>
   nBits (hd (example_chain 30)) = 0x1e7fffff"
proof -
  have "GetNextWorkRequired (example_chain 30) (Some (example_header 1500005251))
          regtest_params = Inr (GetCompact (powLimit regtest_params))"
    unfolding example_chain_30
    by (simp add: GetNextWorkRequired_def DigishieldGet_Cons example_header_def
        HeaderBlockTime_def GetBlockTime_def)
      (simp add: regtest_params_def)
  then show ?thesis
    by (simp add: GetCompact_regtest_limit example_chain_30) (simp add: regtest_params_def)
qed

text \<open>
  C5, as amended. With an absent parent \<^verbatim>\<open>GetNextWorkRequired\<close> does not return: the
  assertion \<^verbatim>\<open>pindexLast != nullptr\<close> at its entry fails. The same assertion opens
  \<^verbatim>\<open>DigishieldGetNextWorkRequired\<close>, ahead of the genesis test that would return the encoded
  \<open>powLimit\<close>, so that test is never reached with a null parent.
\<close>

theorem absent_parent_aborts:
  "GetNextWorkRequired [] pblock params = Inl AssertionFailed \<and>
   DigishieldGetNextWorkRequired [] pblock params = Inl AssertionFailed"
  by (simp add: GetNextWorkRequired_def DigishieldGetNextWorkRequired_def)

text \<open>The claim as stated fails: the genesis call yields no compact at all.\<close>

theorem absent_parent_counterexample:
  "GetNextWorkRequired [] None main_params \<noteq> Inr (GetCompact (powLimit main_params))"
  by (simp add: GetNextWorkRequired_def)

text \<open>
  C9. In both engines the min-difficulty escape is tested before \<open>fPowNoRetargeting\<close>: with
  both flags true and a candidate stamped later than the parent's time plus
  \<open>6 * nDigishieldTargetSpacing\<close> (Digishield) or plus \<open>2 * nPowTargetSpacing\<close> (LWMA), the
  result is the encoded \<open>powLimit\<close>; it is not read from the parent.
\<close>

theorem minDifficulty_before_noRetargeting:
  assumes "fPowAllowMinDifficultyBlocks params" and "fPowNoRetargeting params"
  shows "(HeaderBlockTime blk > GetBlockTime p + sint (nDigishieldTargetSpacing params) * 6 \<longrightarrow>
            DigishieldGetNextWorkRequired (p # rest) (Some blk) params =
              Inr (GetCompact (powLimit params))) \<and>
         (HeaderBlockTime blk > GetBlockTime p + sint (nPowTargetSpacing params) * 2 \<longrightarrow>
            LwmaGetNextWorkRequired (p # rest) (Some blk) params =
              Inr (GetCompact (powLimit params)))"
  using assms(1) by (simp add: DigishieldGet_Cons LwmaGetNextWorkRequired_def)

theorem minDifficulty_before_noRetargeting_witness:
  "fPowAllowMinDifficultyBlocks regtest_params \<and> fPowNoRetargeting regtest_params \<and>
   DigishieldGetNextWorkRequired (example_chain 30) (Some (example_header 1500005251))
     regtest_params = Inr (GetCompact (powLimit regtest_params)) \<and>
   LwmaGetNextWorkRequired (example_chain 70) (Some (example_header 1500010651))
     regtest_params = Inr (GetCompact (powLimit regtest_params))"
proof -
  have f: "fPowAllowMinDifficultyBlocks regtest_params" "fPowNoRetargeting regtest_params"
    by (simp_all add: regtest_params_def)
  have t1: "HeaderBlockTime (example_header 1500005251) >
      GetBlockTime \<lparr>nHeight = 29, nTime = 1500004350, nBits = 0x1e7fffff\<rparr> +
        sint (nDigishieldTargetSpacing regtest_params) * 6"
    by (simp add: regtest_params_def example_header_def HeaderBlockTime_def GetBlockTime_def)
  have t2: "HeaderBlockTime (example_header 1500010651) >
      GetBlockTime \<lparr>nHeight = 69, nTime = 1500010350, nBits = 0x1e7fffff\<rparr> +
        sint (nPowTargetSpacing regtest_params) * 2"
    by (simp add: regtest_params_def example_header_def HeaderBlockTime_def GetBlockTime_def)
  from minDifficulty_before_noRetargeting [OF f, where blk = "example_header 1500005251"
      and p = "\<lparr>nHeight = 29, nTime = 1500004350, nBits = 0x1e7fffff\<rparr>"
      and rest = "example_chain 29"] t1
  have a: "DigishieldGetNextWorkRequired (example_chain 30) (Some (example_header 1500005251))
     regtest_params = Inr (GetCompact (powLimit regtest_params))"
    unfolding example_chain_30 by blast
  from minDifficulty_before_noRetargeting [OF f, where blk = "example_header 1500010651"
      and p = "\<lparr>nHeight = 69, nTime = 1500010350, nBits = 0x1e7fffff\<rparr>"
      and rest = "example_chain 69"] t2
  have b: "LwmaGetNextWorkRequired (example_chain 70) (Some (example_header 1500010651))
     regtest_params = Inr (GetCompact (powLimit regtest_params))"
    unfolding example_chain_70 by blast
  from f a b show ?thesis by (intro conjI)
qed

text \<open>
  C10. When \<open>fPowAllowMinDifficultyBlocks\<close> is true the LWMA entry point dereferences the
  candidate header before any null test, so an absent candidate is a null dereference: a
  present candidate is a precondition of the LWMA path. The Digishield path guards the same
  read with \<^verbatim>\<open>pblock &&\<close>: with an absent candidate it behaves as with the rule off, and it
  never dereferences a null pointer.
\<close>

theorem lwma_reads_candidate_unguarded:
  assumes "fPowAllowMinDifficultyBlocks params"
  shows "LwmaGetNextWorkRequired pindexLast None params = Inl NullDereference \<and>
         DigishieldGetNextWorkRequired pindexLast None params =
           DigishieldGetNextWorkRequired pindexLast None
             (params\<lparr>fPowAllowMinDifficultyBlocks := False\<rparr>) \<and>
         DigishieldGetNextWorkRequired pindexLast None params \<noteq> Inl NullDereference"
proof (intro conjI)
  show "LwmaGetNextWorkRequired pindexLast None params = Inl NullDereference"
    using assms by (simp add: LwmaGetNextWorkRequired_def)
  show "DigishieldGetNextWorkRequired pindexLast None params =
           DigishieldGetNextWorkRequired pindexLast None
             (params\<lparr>fPowAllowMinDifficultyBlocks := False\<rparr>)"
  proof (cases pindexLast)
    case Nil
    then show ?thesis by (simp add: DigishieldGetNextWorkRequired_def)
  next
    case (Cons p rest)
    have w: "nDigishieldAveragingWindow (params\<lparr>fPowAllowMinDifficultyBlocks := False\<rparr>) =
        nDigishieldAveragingWindow params" by simp
    show ?thesis
      unfolding Cons DigishieldGet_Cons DigishieldReset_update DigishieldCalculate_update w
      by simp
  qed
  show "DigishieldGetNextWorkRequired pindexLast None params \<noteq> Inl NullDereference"
    by (rule DigishieldGet_not_null)
qed

theorem lwma_reads_candidate_unguarded_witness:
  "fPowAllowMinDifficultyBlocks regtest_params \<and>
   LwmaGetNextWorkRequired (example_chain 70) None regtest_params = Inl NullDereference \<and>
   DigishieldGetNextWorkRequired (example_chain 30) None regtest_params \<noteq> Inl NullDereference"
proof -
  have f: "fPowAllowMinDifficultyBlocks regtest_params" by (simp add: regtest_params_def)
  from lwma_reads_candidate_unguarded [OF f, of "example_chain 70"]
    lwma_reads_candidate_unguarded [OF f, of "example_chain 30"] f
  show ?thesis by blast
qed

text \<open>
  C4, as amended. In Digishield v3 (past the min-difficulty escape and the fork-reset
  window), when the chain ending at the parent holds more than \<open>W\<close> blocks the walk gathers
  the decoded targets of the parent and its \<open>W - 1\<close> predecessors and stops at the parent's
  \<open>W\<close>-th predecessor; the first-block anchor of the timespan is the median-time-past of that
  block, the one just before the oldest block of the \<open>W\<close>-block window. When the chain holds
  \<open>W\<close> blocks or fewer the walk ends at the null pointer and the engine returns the encoded
  \<open>powLimit\<close>: also when it holds exactly \<open>W\<close> blocks and all \<open>W\<close> targets were gathered.
\<close>

theorem digishield_anchor_precedes_window:
  assumes "\<not> (fPowAllowMinDifficultyBlocks params \<and>
         (case pblock of
            None \<Rightarrow> False
          | Some blk \<Rightarrow>
              HeaderBlockTime blk > GetBlockTime p + sint (nDigishieldTargetSpacing params) * 6))"
    and "\<not> DigishieldReset p params"
  shows "(sint (nDigishieldAveragingWindow params) < int (length (p # rest)) \<longrightarrow>
            DigishieldWalk (sint (nDigishieldAveragingWindow params)) 0 0 (p # rest) =
              (max 0 (sint (nDigishieldAveragingWindow params)),
               sum_list (map (\<lambda>b. CompactTarget (nBits b))
                 (take (nat (sint (nDigishieldAveragingWindow params))) (p # rest))),
               drop (nat (sint (nDigishieldAveragingWindow params))) (p # rest)) \<and>
            DigishieldGetNextWorkRequired (p # rest) pblock params =
              (case u256_div
                      (sum_list (map (\<lambda>b. CompactTarget (nBits b))
                         (take (nat (sint (nDigishieldAveragingWindow params))) (p # rest))))
                      (of_int64 (sint (nDigishieldAveragingWindow params))) of
                 Inl e \<Rightarrow> Inl e
               | Inr bnAvg \<Rightarrow>
                   DigishieldCalculateNextWorkRequired (p # rest) bnAvg
                     (GetMedianTimePast
                        (drop (nat (sint (nDigishieldAveragingWindow params))) (p # rest)))
                     params)) \<and>
         (int (length (p # rest)) \<le> sint (nDigishieldAveragingWindow params) \<longrightarrow>
            DigishieldWalk (sint (nDigishieldAveragingWindow params)) 0 0 (p # rest) =
              (int (length (p # rest)),
               sum_list (map (\<lambda>b. CompactTarget (nBits b)) (p # rest)), []) \<and>
            DigishieldGetNextWorkRequired (p # rest) pblock params =
              Inr (GetCompact (powLimit params)))"
proof (intro conjI impI)
  assume long: "sint (nDigishieldAveragingWindow params) < int (length (p # rest))"
  then have m: "int (min (nat (sint (nDigishieldAveragingWindow params))) (length (p # rest))) =
      max 0 (sint (nDigishieldAveragingWindow params))"
    by (cases "0 \<le> sint (nDigishieldAveragingWindow params)") (auto simp: min_def max_def)
  show "DigishieldWalk (sint (nDigishieldAveragingWindow params)) 0 0 (p # rest) =
      (max 0 (sint (nDigishieldAveragingWindow params)),
       sum_list (map (\<lambda>b. CompactTarget (nBits b))
         (take (nat (sint (nDigishieldAveragingWindow params))) (p # rest))),
       drop (nat (sint (nDigishieldAveragingWindow params))) (p # rest))"
    unfolding DigishieldWalk_eq diff_zero add_0 m ..
  from long have nl: "\<not> int (length (p # rest)) \<le> sint (nDigishieldAveragingWindow params)"
    by simp
  show "DigishieldGetNextWorkRequired (p # rest) pblock params =
      (case u256_div
              (sum_list (map (\<lambda>b. CompactTarget (nBits b))
                 (take (nat (sint (nDigishieldAveragingWindow params))) (p # rest))))
              (of_int64 (sint (nDigishieldAveragingWindow params))) of
         Inl e \<Rightarrow> Inl e
       | Inr bnAvg \<Rightarrow>
           DigishieldCalculateNextWorkRequired (p # rest) bnAvg
             (GetMedianTimePast
                (drop (nat (sint (nDigishieldAveragingWindow params))) (p # rest)))
             params)"
    unfolding DigishieldGet_Cons using assms nl by (simp only: if_False)
next
  assume short: "int (length (p # rest)) \<le> sint (nDigishieldAveragingWindow params)"
  then have n: "length (p # rest) \<le> nat (sint (nDigishieldAveragingWindow params))"
    by simp
  then have m: "min (nat (sint (nDigishieldAveragingWindow params))) (length (p # rest)) =
      length (p # rest)" by simp
  show "DigishieldWalk (sint (nDigishieldAveragingWindow params)) 0 0 (p # rest) =
      (int (length (p # rest)), sum_list (map (\<lambda>b. CompactTarget (nBits b)) (p # rest)), [])"
    unfolding DigishieldWalk_eq diff_zero add_0 m using n by (simp only: take_all drop_all)
  show "DigishieldGetNextWorkRequired (p # rest) pblock params =
      Inr (GetCompact (powLimit params))"
    unfolding DigishieldGet_Cons using assms short by (simp only: if_False if_True)
qed

theorem digishield_anchor_precedes_window_witness:
  "sint (nDigishieldAveragingWindow main_params) <
     int (length (\<lparr>nHeight = 29, nTime = 1500004350, nBits = 0x1e7fffff\<rparr> # example_chain 29)) \<and>
   DigishieldWalk (sint (nDigishieldAveragingWindow main_params)) 0 0
       (\<lparr>nHeight = 29, nTime = 1500004350, nBits = 0x1e7fffff\<rparr> # example_chain 29) =
     (max 0 (sint (nDigishieldAveragingWindow main_params)),
      sum_list (map (\<lambda>b. CompactTarget (nBits b))
        (take (nat (sint (nDigishieldAveragingWindow main_params)))
           (\<lparr>nHeight = 29, nTime = 1500004350, nBits = 0x1e7fffff\<rparr> # example_chain 29))),
      drop (nat (sint (nDigishieldAveragingWindow main_params)))
        (\<lparr>nHeight = 29, nTime = 1500004350, nBits = 0x1e7fffff\<rparr> # example_chain 29)) \<and>
   DigishieldGetNextWorkRequired
       (\<lparr>nHeight = 29, nTime = 1500004350, nBits = 0x1e7fffff\<rparr> # example_chain 29) None main_params =
     (case u256_div
             (sum_list (map (\<lambda>b. CompactTarget (nBits b))
                (take (nat (sint (nDigishieldAveragingWindow main_params)))
                   (\<lparr>nHeight = 29, nTime = 1500004350, nBits = 0x1e7fffff\<rparr> # example_chain 29))))
             (of_int64 (sint (nDigishieldAveragingWindow main_params))) of
        Inl e \<Rightarrow> Inl e
      | Inr bnAvg \<Rightarrow>
          DigishieldCalculateNextWorkRequired
            (\<lparr>nHeight = 29, nTime = 1500004350, nBits = 0x1e7fffff\<rparr> # example_chain 29) bnAvg
            (GetMedianTimePast
               (drop (nat (sint (nDigishieldAveragingWindow main_params)))
                  (\<lparr>nHeight = 29, nTime = 1500004350, nBits = 0x1e7fffff\<rparr> # example_chain 29)))
            main_params) \<and>
   DigishieldGetNextWorkRequired
       (\<lparr>nHeight = 16, nTime = 1500002400, nBits = 0x1e7fffff\<rparr> # example_chain 16) None
       main_params =
     Inr (GetCompact (powLimit main_params))"
proof -
  let ?p = "\<lparr>nHeight = 29, nTime = 1500004350, nBits = 0x1e7fffff\<rparr>"
  have h1: "\<not> (fPowAllowMinDifficultyBlocks main_params \<and>
         (case None of
            None \<Rightarrow> False
          | Some blk \<Rightarrow>
              HeaderBlockTime blk >
                GetBlockTime ?p + sint (nDigishieldTargetSpacing main_params) * 6))"
    by simp
  have h2: "\<not> DigishieldReset ?p main_params"
    by (simp add: DigishieldReset_def main_params_def)
  have l: "sint (nDigishieldAveragingWindow main_params) < int (length (?p # example_chain 29))"
    by (simp add: main_params_def length_example_chain)
  let ?q = "\<lparr>nHeight = 16, nTime = 1500002400, nBits = 0x1e7fffff\<rparr>"
  have k1: "\<not> (fPowAllowMinDifficultyBlocks main_params \<and>
         (case None of
            None \<Rightarrow> False
          | Some blk \<Rightarrow>
              HeaderBlockTime blk >
                GetBlockTime ?q + sint (nDigishieldTargetSpacing main_params) * 6))"
    by simp
  have k2: "\<not> DigishieldReset ?q main_params"
    by (simp add: DigishieldReset_def main_params_def)
  have s: "int (length (?q # example_chain 16)) \<le> sint (nDigishieldAveragingWindow main_params)"
    by (simp add: main_params_def length_example_chain)
  from digishield_anchor_precedes_window [OF h1 h2, of "example_chain 29"] l
    digishield_anchor_precedes_window [OF k1 k2, of "example_chain 16"] s
  show ?thesis by blast
qed

text \<open>
  The claim as stated fails twice. On a chain of 30 blocks with \<open>W = 17\<close> the oldest block of
  the window is at height 13, while the anchor is the median-time-past of the block at
  height 12, 150 seconds earlier; with the window's oldest block as the anchor the result
  would be another compact. On a chain of exactly 17 blocks the walk gathers all 17 targets
  and the engine still reports insufficient history.
\<close>

theorem digishield_anchor_counterexample:
  "nHeight (hd (drop 16 (example_chain 30))) = 13 \<and>
   nHeight (hd (drop 17 (example_chain 30))) = 12 \<and>
   GetMedianTimePast (drop 16 (example_chain 30)) = 1500001200 \<and>
   GetMedianTimePast (drop 17 (example_chain 30)) = 1500001050 \<and>
   DigishieldGetNextWorkRequired (example_chain 30) None main_params = Inr 0x1e7ffffe \<and>
   DigishieldCalculateNextWorkRequired (example_chain 30) (CompactTarget 0x1e7fffff)
     (GetMedianTimePast (drop 17 (example_chain 30))) main_params = Inr 0x1e7ffffe \<and>
   DigishieldCalculateNextWorkRequired (example_chain 30) (CompactTarget 0x1e7fffff)
     (GetMedianTimePast (drop 16 (example_chain 30))) main_params = Inr 0x1e7e2489 \<and>
   fst (DigishieldWalk 17 0 0 (example_chain 17)) = 17 \<and>
   DigishieldGetNextWorkRequired (example_chain 17) None main_params =
     Inr (GetCompact (powLimit main_params))"
proof (intro conjI)
  show "nHeight (hd (drop 16 (example_chain 30))) = 13"
    by (simp add: example_chain_def uniform_chain_def upt_rec)
  show "nHeight (hd (drop 17 (example_chain 30))) = 12"
    by (simp add: example_chain_def uniform_chain_def upt_rec)
  show "GetMedianTimePast (drop 16 (example_chain 30)) = 1500001200"
    by (simp add: engine_eval)
  show "GetMedianTimePast (drop 17 (example_chain 30)) = 1500001050"
    by (simp add: engine_eval)
  show "DigishieldGetNextWorkRequired (example_chain 30) None main_params = Inr 0x1e7ffffe"
    by (simp add: engine_eval main_params_def GetCompact_retargeted)
  show "DigishieldCalculateNextWorkRequired (example_chain 30) (CompactTarget 0x1e7fffff)
     (GetMedianTimePast (drop 17 (example_chain 30))) main_params = Inr 0x1e7ffffe"
    by (simp add: engine_eval main_params_def GetCompact_retargeted)
  show "DigishieldCalculateNextWorkRequired (example_chain 30) (CompactTarget 0x1e7fffff)
     (GetMedianTimePast (drop 16 (example_chain 30))) main_params = Inr 0x1e7e2489"
    by (simp add: engine_eval main_params_def GetCompact_retargeted_window_anchor)
  show "fst (DigishieldWalk 17 0 0 (example_chain 17)) = 17"
    by (simp add: DigishieldWalk_eq length_example_chain)
  show "DigishieldGetNextWorkRequired (example_chain 17) None main_params =
     Inr (GetCompact (powLimit main_params))"
    by (simp add: example_chain_Suc [of 16, simplified] DigishieldGet_Cons DigishieldReset_def
        length_example_chain main_params_def)
qed

text \<open>
  C6. The claim asks for a 64-bit accumulator \<open>t\<close>, so that the weighted solvetime sum is
  never truncated. The source declares \<^verbatim>\<open>int t\<close> while the addend \<^verbatim>\<open>solvetime * j\<close> is
  \<^verbatim>\<open>int64_t\<close>, so the sum is cut to 32 bits at every step. On the stalled chain, with the
  solvetime limit off, the weighted sum is 2250148500; the loop ends with \<open>t = -2044818796\<close>,
  the floor then replaces it by \<open>N * k / dnorm\<close>, and the engine returns a target about ten
  times harder than the window's, where the untruncated sum saturates to \<open>powLimit\<close>.
\<close>

theorem lwma_accumulator_wraps:
  "LwmaLoop stalled_chain 150 False (of_int64 (3443 * 45 * 45)) [25..69] (0, 0, 0) =
     Inr (- 2044818796, 45,
          5701897099279701140700694177903195367368958786218182324921366033075) \<and>
   SpecWeightedSolvetimeSum stalled_chain 150 False [25..69] 0 = 2250148500 \<and>
   to_int32 2250148500 = - 2044818796 \<and>
   LwmaCalculateNextWorkRequired stalled_chain
     (main_params\<lparr>bZawyLwmaSolvetimeLimitation := False\<rparr>) = Inr 0x1e0cccb1 \<and>
   of_int64 2250148500 *
     5701897099279701140700694177903195367368958786218182324921366033075 >
   powLimit main_params \<and>
   GetCompact (powLimit main_params) = 0x1f07ffff"
proof (intro conjI)
  show "LwmaLoop stalled_chain 150 False (of_int64 (3443 * 45 * 45)) [25..69] (0, 0, 0) =
     Inr (- 2044818796, 45,
          5701897099279701140700694177903195367368958786218182324921366033075)"
    by (simp add: of_int64_def stalled_loop del: upto_rec_numeral)
  show "SpecWeightedSolvetimeSum stalled_chain 150 False [25..69] 0 = 2250148500"
    by (rule stalled_sum)
  show "to_int32 2250148500 = - 2044818796"
    by (simp add: to_int32_def)
  show "LwmaCalculateNextWorkRequired stalled_chain
     (main_params\<lparr>bZawyLwmaSolvetimeLimitation := False\<rparr>) = Inr 0x1e0cccb1"
    by (rule stalled_result)
  show "of_int64 2250148500 *
     5701897099279701140700694177903195367368958786218182324921366033075 >
   powLimit main_params"
    by (rule exact_saturates)
  show "GetCompact (powLimit main_params) = 0x1f07ffff"
    by (rule GetCompact_main_limit)
qed

text \<open>
  C7, as amended. On a chain whose heights count down to the genesis, with
  \<open>h = parent.height + 1\<close> and \<open>N = nZawyLwmaAveragingWindow\<close>: when \<open>fPowNoRetargeting\<close> is
  false and \<open>h > N\<close>, the assertion of the LWMA engine holds and every ancestor lookup of its
  loop, at \<open>i\<close> and at \<open>i - 1\<close> for \<open>i\<close> from \<open>h - N\<close> to \<open>h - 1\<close>, is for a height between 0 and
  the parent's and succeeds; when \<open>fPowNoRetargeting\<close> is false and \<open>h \<le> N\<close> the call aborts
  on the assertion. When \<open>fPowNoRetargeting\<close> is true the call returns the parent's \<open>nBits\<close>
  before it reaches the assertion, whatever \<open>h\<close> is.
\<close>

theorem lwma_assertion_and_lookups:
  assumes "chain_ok (p # rest)"
  shows "(fPowNoRetargeting params \<longrightarrow>
           LwmaCalculateNextWorkRequired (p # rest) params = Inr (nBits p)) \<and>
         (\<not> fPowNoRetargeting params \<and>
          sint (nHeight p) + 1 \<le> sint (nZawyLwmaAveragingWindow params) \<longrightarrow>
           LwmaCalculateNextWorkRequired (p # rest) params = Inl AssertionFailed) \<and>
         (\<not> fPowNoRetargeting params \<and>
          sint (nHeight p) + 1 > sint (nZawyLwmaAveragingWindow params) \<longrightarrow>
           LwmaCalculateNextWorkRequired (p # rest) params \<noteq> Inl AssertionFailed \<and>
           LwmaCalculateNextWorkRequired (p # rest) params \<noteq> Inl NullDereference \<and>
           (\<forall>i\<in>set [sint (nHeight p) + 1 - sint (nZawyLwmaAveragingWindow params) ..
                       sint (nHeight p) + 1 - 1].
              0 \<le> i - 1 \<and> i \<le> sint (nHeight p) \<and>
              GetAncestor (p # rest) i \<noteq> [] \<and>
              GetAncestor (GetAncestor (p # rest) i) (i - 1) \<noteq> []))"
proof (intro conjI impI)
  assume "fPowNoRetargeting params"
  then show "LwmaCalculateNextWorkRequired (p # rest) params = Inr (nBits p)"
    by (simp add: LwmaCalculateNextWorkRequired_def)
next
  assume "\<not> fPowNoRetargeting params \<and>
      sint (nHeight p) + 1 \<le> sint (nZawyLwmaAveragingWindow params)"
  then show "LwmaCalculateNextWorkRequired (p # rest) params = Inl AssertionFailed"
    by (simp add: LwmaCalculateNextWorkRequired_def Let_def)
next
  assume a: "\<not> fPowNoRetargeting params \<and>
      sint (nHeight p) + 1 > sint (nZawyLwmaAveragingWindow params)"
  let ?hs = "[sint (nHeight p) + 1 - sint (nZawyLwmaAveragingWindow params) ..
             sint (nHeight p) + 1 - 1]"
  from a have rng: "\<forall>i\<in>set ?hs. 1 \<le> i \<and> i \<le> sint (nHeight p)" by auto
  define L where "L = LwmaLoop (p # rest) (sint (nPowTargetSpacing params))
             (bZawyLwmaSolvetimeLimitation params)
             (of_int64 (sint (nZawyLwmaAdjustedWeight params) *
                sint (nZawyLwmaAveragingWindow params) *
                sint (nZawyLwmaAveragingWindow params))) ?hs (0, 0, 0)"
  from LwmaLoop_lookups [OF assms rng]
  have l: "L \<noteq> Inl NullDereference" "L \<noteq> Inl AssertionFailed"
    unfolding L_def by simp_all
  have r: "LwmaCalculateNextWorkRequired (p # rest) params =
      (case L of
         Inl e \<Rightarrow> Inl e
       | Inr s \<Rightarrow>
           if sint (nZawyLwmaMinDenominator params) = 0 then Inl DivisionByZero
           else Inr (GetCompact
             (let t = (if fst s < cpp_div (sint (nZawyLwmaAveragingWindow params) *
                                     sint (nZawyLwmaAdjustedWeight params))
                                  (sint (nZawyLwmaMinDenominator params))
                       then cpp_div (sint (nZawyLwmaAveragingWindow params) *
                                     sint (nZawyLwmaAdjustedWeight params))
                                  (sint (nZawyLwmaMinDenominator params))
                       else fst s);
                  next_target0 = of_int64 t * snd (snd s)
              in if next_target0 > powLimit params then powLimit params else next_target0)))"
    using a by (simp add: LwmaCalculateNextWorkRequired_def Let_def L_def split: sum.splits)
  show "LwmaCalculateNextWorkRequired (p # rest) params \<noteq> Inl AssertionFailed"
    unfolding r using l by (cases L) simp_all
  show "LwmaCalculateNextWorkRequired (p # rest) params \<noteq> Inl NullDereference"
    unfolding r using l by (cases L) simp_all
  show "\<forall>i\<in>set ?hs. 0 \<le> i - 1 \<and> i \<le> sint (nHeight p) \<and>
      GetAncestor (p # rest) i \<noteq> [] \<and> GetAncestor (GetAncestor (p # rest) i) (i - 1) \<noteq> []"
  proof
    fix i assume "i \<in> set ?hs"
    with rng have i: "1 \<le> i" "i \<le> sint (nHeight p)" by simp_all
    then have "0 \<le> i" by simp
    from GetAncestor_valid [OF assms this i(2)] obtain b r
      where g: "GetAncestor (p # rest) i = b # r" and okb: "chain_ok (b # r)"
        and hb: "sint (nHeight b) = i" by blast
    from i hb have "0 \<le> i - 1" "i - 1 \<le> sint (nHeight b)" by simp_all
    from GetAncestor_valid [OF okb this] obtain b' r'
      where g': "GetAncestor (b # r) (i - 1) = b' # r'" by blast
    from i g g' show "0 \<le> i - 1 \<and> i \<le> sint (nHeight p) \<and>
      GetAncestor (p # rest) i \<noteq> [] \<and> GetAncestor (GetAncestor (p # rest) i) (i - 1) \<noteq> []"
      by simp
  qed
qed

theorem lwma_assertion_and_lookups_witness:
  "chain_ok (\<lparr>nHeight = 69, nTime = 1500010350, nBits = 0x1e7fffff\<rparr> # example_chain 69) \<and>
   \<not> fPowNoRetargeting main_params \<and>
   sint (nHeight \<lparr>nHeight = 69, nTime = 1500010350, nBits = 0x1e7fffff\<rparr>) + 1 >
     sint (nZawyLwmaAveragingWindow main_params) \<and>
   LwmaCalculateNextWorkRequired (example_chain 70) main_params \<noteq> Inl AssertionFailed \<and>
   LwmaCalculateNextWorkRequired (example_chain 70) main_params \<noteq> Inl NullDereference \<and>
   LwmaCalculateNextWorkRequired (example_chain 30) main_params = Inl AssertionFailed \<and>
   LwmaCalculateNextWorkRequired (example_chain 30) regtest_params = Inr 0x1e7fffff"
proof -
  let ?p = "\<lparr>nHeight = 69, nTime = 1500010350, nBits = 0x1e7fffff\<rparr>"
  let ?q = "\<lparr>nHeight = 29, nTime = 1500004350, nBits = 0x1e7fffff\<rparr>"
  have ok70: "chain_ok (?p # example_chain 69)"
    using chain_ok_example [of 70] by (simp add: example_chain_70)
  have ok30: "chain_ok (?q # example_chain 29)"
    using chain_ok_example [of 30] by (simp add: example_chain_30)
  have nr: "\<not> fPowNoRetargeting main_params" by (simp add: main_params_def)
  have h70: "sint (nHeight ?p) + 1 > sint (nZawyLwmaAveragingWindow main_params)"
    by (simp add: main_params_def)
  have h30: "sint (nHeight ?q) + 1 \<le> sint (nZawyLwmaAveragingWindow main_params)"
    by (simp add: main_params_def)
  have rt: "fPowNoRetargeting regtest_params" by (simp add: regtest_params_def)
  from lwma_assertion_and_lookups [OF ok70, of main_params] nr h70
  have a: "LwmaCalculateNextWorkRequired (example_chain 70) main_params \<noteq> Inl AssertionFailed"
    "LwmaCalculateNextWorkRequired (example_chain 70) main_params \<noteq> Inl NullDereference"
    unfolding example_chain_70 by blast+
  from lwma_assertion_and_lookups [OF ok30, of main_params] nr h30
  have b: "LwmaCalculateNextWorkRequired (example_chain 30) main_params = Inl AssertionFailed"
    unfolding example_chain_30 by blast
  from lwma_assertion_and_lookups [OF ok30, of regtest_params] rt
  have c: "LwmaCalculateNextWorkRequired (example_chain 30) regtest_params = Inr 0x1e7fffff"
    unfolding example_chain_30 by simp
  from ok70 nr h70 a b c show ?thesis by (intro conjI)
qed

text \<open>
  The claim as stated fails for \<open>h \<le> N\<close> on regtest-like parameters: with 30 blocks and
  \<open>N = 45\<close> the call returns the parent's compact instead of aborting.
\<close>

theorem lwma_short_chain_counterexample:
  "sint (nHeight (hd (example_chain 30))) + 1 \<le> sint (nZawyLwmaAveragingWindow regtest_params) \<and>
   LwmaCalculateNextWorkRequired (example_chain 30) regtest_params = Inr 0x1e7fffff"
  by (simp add: example_chain_30 LwmaCalculateNextWorkRequired_def regtest_params_def)

text \<open>
  C8. \<^verbatim>\<open>CheckEquihashSolution\<close> chooses \<open>(n, k)\<close> from the byte length of \<open>nSolution\<close> alone:
  1344 gives (200, 9), 400 gives (192, 7), 100 gives (144, 5), 68 gives (96, 5) and 36 gives
  (48, 5), and the result is the verifier's answer for that pair. For any other length it
  returns false and the verifier is not invoked. Two headers with solutions of the same
  length lead to the same verifier invocations, whatever else they hold.
\<close>

theorem equihash_parameters_by_length:
  "(length (nSolution pblock) = 1344 \<longrightarrow>
      CheckEquihashSolution eh pblock =
        (EhIsValidSolution eh 200 9 (EquihashState eh 200 9 pblock) (nSolution pblock),
         [(200, 9)])) \<and>
   (length (nSolution pblock) = 400 \<longrightarrow>
      CheckEquihashSolution eh pblock =
        (EhIsValidSolution eh 192 7 (EquihashState eh 192 7 pblock) (nSolution pblock),
         [(192, 7)])) \<and>
   (length (nSolution pblock) = 100 \<longrightarrow>
      CheckEquihashSolution eh pblock =
        (EhIsValidSolution eh 144 5 (EquihashState eh 144 5 pblock) (nSolution pblock),
         [(144, 5)])) \<and>
   (length (nSolution pblock) = 68 \<longrightarrow>
      CheckEquihashSolution eh pblock =
        (EhIsValidSolution eh 96 5 (EquihashState eh 96 5 pblock) (nSolution pblock),
         [(96, 5)])) \<and>
   (length (nSolution pblock) = 36 \<longrightarrow>
      CheckEquihashSolution eh pblock =
        (EhIsValidSolution eh 48 5 (EquihashState eh 48 5 pblock) (nSolution pblock),
         [(48, 5)])) \<and>
   (length (nSolution pblock) \<notin> {1344, 400, 100, 68, 36} \<longrightarrow>
      CheckEquihashSolution eh pblock = (False, [])) \<and>
   (length (nSolution pblock') = length (nSolution pblock) \<longrightarrow>
      snd (CheckEquihashSolution eh' pblock') = snd (CheckEquihashSolution eh pblock))"
  by (simp add: CheckEquihashSolution_def Let_def)

theorem equihash_parameters_by_length_witness:
  "CheckEquihashSolution accepting_equihash (header_with_solution 1344) = (True, [(200, 9)]) \<and>
   CheckEquihashSolution accepting_equihash (header_with_solution 400) = (True, [(192, 7)]) \<and>
   CheckEquihashSolution accepting_equihash (header_with_solution 100) = (True, [(144, 5)]) \<and>
   CheckEquihashSolution accepting_equihash (header_with_solution 68) = (True, [(96, 5)]) \<and>
   CheckEquihashSolution accepting_equihash (header_with_solution 36) = (True, [(48, 5)]) \<and>
   CheckEquihashSolution accepting_equihash (header_with_solution 35) = (False, []) \<and>
   snd (CheckEquihashSolution accepting_equihash ((header_with_solution 36)\<lparr>nNonce := 7\<rparr>)) =
     snd (CheckEquihashSolution accepting_equihash (header_with_solution 36))"
  using equihash_parameters_by_length
      [of "header_with_solution 1344" accepting_equihash "header_with_solution 1344"
        accepting_equihash]
    equihash_parameters_by_length
      [of "header_with_solution 400" accepting_equihash "header_with_solution 400"
        accepting_equihash]
    equihash_parameters_by_length
      [of "header_with_solution 100" accepting_equihash "header_with_solution 100"
        accepting_equihash]
    equihash_parameters_by_length
      [of "header_with_solution 68" accepting_equihash "header_with_solution 68"
        accepting_equihash]
    equihash_parameters_by_length
      [of "header_with_solution 36" accepting_equihash "header_with_solution 36"
        accepting_equihash]
    equihash_parameters_by_length
      [of "header_with_solution 35" accepting_equihash "header_with_solution 35"
        accepting_equihash]
    equihash_parameters_by_length
      [of "header_with_solution 36" accepting_equihash
        "(header_with_solution 36)\<lparr>nNonce := 7\<rparr>" accepting_equihash]
  by (simp add: solution_length accepting_equihash_def)

end
